theory Spec2Isabelle
  imports Complex_Main
begin

section \<open>Desktop window manager: data model\<close>

text \<open>
  The script \<^verbatim>\<open>src/scripts/desktop-manager.ts\<close> keeps three pieces of state of its own
  (\<^verbatim>\<open>highestZ\<close>, \<^verbatim>\<open>openWindows\<close>, \<^verbatim>\<open>windowPositions\<close>), one closure record per drag or
  resize target, and otherwise reads and writes the document. The embedding passes all of
  it explicitly:
  \<^item> a JavaScript \<^verbatim>\<open>number\<close> is a rational (pixel values, pointer coordinates); the focus
    counter is an unbounded integer, the source never bounding it;
  \<^item> an inline style length is either unset (the empty string, falsy for \<^verbatim>\<open>||\<close>) or
    \<^verbatim>\<open>n + 'px'\<close>; the stacking order \<^verbatim>\<open>String(highestZ)\<close> is kept as the integer it spells;
  \<^item> the \<^verbatim>\<open>Map\<close> \<^verbatim>\<open>openWindows\<close> is an association list in insertion order, which is the
    order \<^verbatim>\<open>forEach\<close> visits;
  \<^item> the panels and icons of the document are partial maps from identities to elements;
    the set of panels and icons is fixed, as the listeners are attached once, and every
    panel and icon is selected by its own identity;
  \<^item> \<^verbatim>\<open>document.querySelector\<close> has three outcomes: it returns an element, it returns
    \<^verbatim>\<open>null\<close>, or it raises \<^verbatim>\<open>SyntaxError\<close> because the selector text, into which the
    identity is spliced as it is, does not parse. Which selector texts the parser rejects
    and the text content the markup parser gives to a string assigned to \<^verbatim>\<open>innerHTML\<close> are
    the browser's, and part of the document;
  \<^item> a call is described by the state it leaves behind and the exception it lets escape,
    if any; an exception ends the listener that raised it and nothing else;
  \<^item> what the layout engine reports (\<^verbatim>\<open>offsetLeft\<close>, \<^verbatim>\<open>offsetTop\<close>, \<^verbatim>\<open>offsetWidth\<close>,
    \<^verbatim>\<open>offsetHeight\<close>) and the viewport size are inputs of each handler, valid when the
    handler starts: no handler reads a layout value after writing a style.
\<close>

type_synonym number = rat
type_synonym window_id = string

datatype css_len = Unset | Px number

datatype js_error = SyntaxError

record element =
  el_display :: string
  el_left :: css_len
  el_top :: css_len
  el_width :: css_len
  el_height :: css_len
  el_zIndex :: "int option"
  el_active :: bool
  el_maximized :: bool
  el_title :: "string option"
  el_hasTitlebar :: bool
  el_hasHandle :: bool

record folder =
  fo_left :: css_len
  fo_top :: css_len
  fo_zIndex :: "int option"
  fo_selected :: bool
  fo_icon :: "string option"

record saved_geometry =
  sg_x :: number
  sg_y :: number
  sg_w :: css_len
  sg_h :: css_len

record taskbar_item =
  ti_window :: window_id
  ti_text :: string
  ti_active :: bool

record box =
  offsetLeft :: number
  offsetTop :: number
  offsetWidth :: number
  offsetHeight :: number

record env =
  innerWidth :: number
  innerHeight :: number
  panelBox :: "window_id \<Rightarrow> box"
  iconBox :: "window_id \<Rightarrow> box"

record drag_session =
  ds_isDragging :: bool
  ds_startX :: number
  ds_startY :: number
  ds_origX :: number
  ds_origY :: number

record folder_session =
  fs_isDragging :: bool
  fs_hasMoved :: bool
  fs_startX :: number
  fs_startY :: number
  fs_origX :: number
  fs_origY :: number

record resize_session =
  rs_isResizing :: bool
  rs_startX :: number
  rs_startY :: number
  rs_startW :: number
  rs_startH :: number

record wm_state =
  highestZ :: int
  openWindows :: "(window_id \<times> bool) list"
  windowPositions :: "window_id \<rightharpoonup> saved_geometry"
  windows :: "window_id \<rightharpoonup> element"
  folders :: "window_id \<rightharpoonup> folder"
  taskbar :: "taskbar_item list option"
  winDrag :: "window_id \<Rightarrow> drag_session"
  winResize :: "window_id \<Rightarrow> resize_session"
  folderDrag :: "window_id \<Rightarrow> folder_session"
  invalidSelector :: "string \<Rightarrow> bool"
  markupText :: "string \<Rightarrow> string"

record bounds =
  b_width :: number
  b_height :: number

section \<open>Helpers\<close>

definition isMobile :: "env \<Rightarrow> bool" where
  "isMobile e = (innerWidth e \<le> 640)"

definition clamp :: "number \<Rightarrow> number \<Rightarrow> number \<Rightarrow> number" where
  "clamp val mn mx = max mn (min mx val)"

definition getDesktopBounds :: "env \<Rightarrow> bounds" where
  "getDesktopBounds e = \<lparr>b_width = innerWidth e, b_height = innerHeight e - 48\<rparr>"

text \<open>\<^verbatim>\<open>a || b\<close> on a number and on a style string.\<close>

definition num_or :: "number \<Rightarrow> number \<Rightarrow> number" where
  "num_or a b = (if a = 0 then b else a)"

definition len_or :: "css_len \<Rightarrow> css_len \<Rightarrow> css_len" where
  "len_or a b = (case a of Unset \<Rightarrow> b | Px n \<Rightarrow> Px n)"

definition str_or :: "string option \<Rightarrow> string \<Rightarrow> string" where
  "str_or a b = (case a of None \<Rightarrow> b | Some t \<Rightarrow> (if t = [] then b else t))"

subsection \<open>The insertion-ordered map \<^verbatim>\<open>openWindows\<close>\<close>

fun map_set :: "window_id \<Rightarrow> bool \<Rightarrow> (window_id \<times> bool) list \<Rightarrow> (window_id \<times> bool) list" where
  "map_set k v [] = [(k, v)]"
| "map_set k v (p # ps) = (if fst p = k then (k, v) # ps else p # map_set k v ps)"

definition map_delete :: "window_id \<Rightarrow> (window_id \<times> bool) list \<Rightarrow> (window_id \<times> bool) list" where
  "map_delete k ps = filter (\<lambda>p. fst p \<noteq> k) ps"

definition isOpen :: "wm_state \<Rightarrow> window_id \<Rightarrow> bool" where
  "isOpen s wid = (map_of (openWindows s) wid \<noteq> None)"

definition isMinimized :: "wm_state \<Rightarrow> window_id \<Rightarrow> bool" where
  "isMinimized s wid = (map_of (openWindows s) wid = Some True)"

section \<open>Looking elements up\<close>

text \<open>
  The selector texts of lines 39, 84, 95, 107, 138 and 142: the identity goes between the
  double quotes unescaped.
\<close>

definition panel_selector :: "window_id \<Rightarrow> string" where
  "panel_selector wid = ''.desktop-window[data-window-id='' @ [CHR 0x22] @ wid @ [CHR 0x22] @ '']''"

definition folder_selector :: "window_id \<Rightarrow> string" where
  "folder_selector wid = ''.desktop-folder[data-folder-id='' @ [CHR 0x22] @ wid @ [CHR 0x22] @ '']''"

text \<open>
  An entry of \<open>windows\<close> is a query that returns that panel. Where there is no entry, the
  query raises if the parser rejects the selector text and returns \<^verbatim>\<open>null\<close> otherwise.
\<close>

definition querySelector_panel :: "wm_state \<Rightarrow> window_id \<Rightarrow> js_error + element option" where
  "querySelector_panel s wid =
     (case windows s wid of
        Some windowEl \<Rightarrow> Inr (Some windowEl)
      | None \<Rightarrow> if invalidSelector s (panel_selector wid) then Inl SyntaxError else Inr None)"

definition querySelector_folder :: "wm_state \<Rightarrow> window_id \<Rightarrow> js_error + folder option" where
  "querySelector_folder s wid =
     (case folders s wid of
        Some folderEl \<Rightarrow> Inr (Some folderEl)
      | None \<Rightarrow> if invalidSelector s (folder_selector wid) then Inl SyntaxError else Inr None)"

text \<open>Sequencing: what follows a call that raised is not run.\<close>

definition and_then ::
  "wm_state \<times> js_error option \<Rightarrow> (wm_state \<Rightarrow> wm_state \<times> js_error option)
   \<Rightarrow> wm_state \<times> js_error option" where
  "and_then r f = (case snd r of None \<Rightarrow> f (fst r) | Some err \<Rightarrow> r)"

section \<open>Taskbar\<close>

text \<open>\<^verbatim>\<open>String.prototype.includes\<close>.\<close>

fun starts_with :: "string \<Rightarrow> string \<Rightarrow> bool" where
  "starts_with t [] = True"
| "starts_with [] (c # cs) = False"
| "starts_with (d # ds) (c # cs) = (d = c \<and> starts_with ds cs)"

fun str_includes :: "string \<Rightarrow> string \<Rightarrow> bool" where
  "str_includes [] a = (a = [])"
| "str_includes (d # ds) a = (starts_with (d # ds) a \<or> str_includes ds a)"

text \<open>The generic glyph U+1F4C4, as its UTF-8 bytes.\<close>

definition default_icon :: string where
  "default_icon = [CHR 0xF0, CHR 0x9F, CHR 0x93, CHR 0x84]"

text \<open>The string assigned to \<^verbatim>\<open>innerHTML\<close> on line 147.\<close>

definition button_markup :: "string \<Rightarrow> string \<Rightarrow> string" where
  "button_markup icon title = ''<span>'' @ icon @ ''</span><span>'' @ title @ ''</span>''"

text \<open>
  One button of the rebuilt taskbar, or the exception of one of its two lookups. An entry
  whose panel lookup returns \<^verbatim>\<open>null\<close> yields no button. The button's text is the text
  content of its markup.
\<close>

definition taskbar_button :: "wm_state \<Rightarrow> window_id \<times> bool \<Rightarrow> js_error + taskbar_item list" where
  "taskbar_button s p =
     (case querySelector_panel s (fst p) of
        Inl err \<Rightarrow> Inl err
      | Inr None \<Rightarrow> Inr []
      | Inr (Some windowEl) \<Rightarrow>
          (let title = str_or (el_title windowEl) (fst p)
           in case querySelector_folder s (fst p) of
                Inl err \<Rightarrow> Inl err
              | Inr folderEl \<Rightarrow>
                  (let icon = str_or (case folderEl of None \<Rightarrow> None | Some f \<Rightarrow> fo_icon f)
                                default_icon
                   in Inr [\<lparr>ti_window = fst p,
                            ti_text = markupText s (button_markup icon title),
                            ti_active = (\<not> snd p)\<rparr>])))"

text \<open>
  The \<^verbatim>\<open>forEach\<close> of \<^verbatim>\<open>updateTaskbar\<close>: the buttons appended before an exception stay.
\<close>

fun taskbar_buttons ::
  "wm_state \<Rightarrow> (window_id \<times> bool) list \<Rightarrow> taskbar_item list \<times> js_error option" where
  "taskbar_buttons s [] = ([], None)"
| "taskbar_buttons s (p # ps) =
     (case taskbar_button s p of
        Inl err \<Rightarrow> ([], Some err)
      | Inr items \<Rightarrow> (items @ fst (taskbar_buttons s ps), snd (taskbar_buttons s ps)))"

definition updateTaskbar_call :: "wm_state \<Rightarrow> wm_state \<times> js_error option" where
  "updateTaskbar_call s =
     (case taskbar s of
        None \<Rightarrow> (s, None)
      | Some items \<Rightarrow>
          (s\<lparr>taskbar := Some (fst (taskbar_buttons s (openWindows s)))\<rparr>,
           snd (taskbar_buttons s (openWindows s))))"

definition updateTaskbar :: "wm_state \<Rightarrow> wm_state" where
  "updateTaskbar s = fst (updateTaskbar_call s)"

definition mark_items :: "window_id \<Rightarrow> taskbar_item list \<Rightarrow> taskbar_item list" where
  "mark_items activeId items =
     map (\<lambda>item. item\<lparr>ti_active := str_includes (ti_text item) activeId\<rparr>) items"

definition updateTaskbarActiveState_call ::
  "wm_state \<Rightarrow> window_id \<Rightarrow> wm_state \<times> js_error option" where
  "updateTaskbarActiveState_call s activeId =
     updateTaskbar_call (s\<lparr>taskbar := map_option (mark_items activeId) (taskbar s)\<rparr>)"

definition updateTaskbarActiveState :: "wm_state \<Rightarrow> window_id \<Rightarrow> wm_state" where
  "updateTaskbarActiveState s activeId = fst (updateTaskbarActiveState_call s activeId)"

section \<open>Focus and stacking order\<close>

text \<open>
  The source passes the panel element itself; here it is named by its identity, and the
  branch for a missing panel is never taken by a caller.
\<close>

definition bringToFront_call :: "wm_state \<Rightarrow> window_id \<Rightarrow> wm_state \<times> js_error option" where
  "bringToFront_call s wid =
     (case windows s wid of
        None \<Rightarrow> (s, None)
      | Some windowEl \<Rightarrow>
          (let z = highestZ s + 1;
               cleared = (\<lambda>k. map_option (\<lambda>w. w\<lparr>el_active := False\<rparr>) (windows s k))
           in updateTaskbarActiveState_call
                (s\<lparr>highestZ := z,
                   windows := cleared(wid \<mapsto> windowEl\<lparr>el_zIndex := Some z, el_active := True\<rparr>)\<rparr>)
                wid))"

definition bringToFront :: "wm_state \<Rightarrow> window_id \<Rightarrow> wm_state" where
  "bringToFront s wid = fst (bringToFront_call s wid)"

section \<open>Window lifecycle\<close>

definition cascade_x :: "env \<Rightarrow> nat \<Rightarrow> window_id \<Rightarrow> number" where
  "cascade_x e n wid =
     max 40 ((b_width (getDesktopBounds e) - num_or (offsetWidth (panelBox e wid)) 600) / 2
             + of_nat n * 30)"

definition cascade_y :: "env \<Rightarrow> nat \<Rightarrow> window_id \<Rightarrow> number" where
  "cascade_y e n wid =
     max 20 ((b_height (getDesktopBounds e) - num_or (offsetHeight (panelBox e wid)) 450) / 2
             + of_nat n * 30)"

definition position_window :: "env \<Rightarrow> wm_state \<Rightarrow> window_id \<Rightarrow> element \<Rightarrow> element" where
  "position_window e s wid windowEl =
     (if \<not> isMobile e then
        (case windowPositions s wid of
           Some saved \<Rightarrow> windowEl\<lparr>el_left := Px (sg_x saved), el_top := Px (sg_y saved)\<rparr>
         | None \<Rightarrow> windowEl\<lparr>el_left := Px (cascade_x e (length (openWindows s)) wid),
                             el_top := Px (cascade_y e (length (openWindows s)) wid)\<rparr>)
      else windowEl)"

text \<open>
  Each of the four operations is given twice: \<open>_call\<close> is the call, with the state it leaves
  and the exception it lets escape; the plain name is the state alone.
\<close>

definition openWindow_call :: "env \<Rightarrow> wm_state \<Rightarrow> window_id \<Rightarrow> wm_state \<times> js_error option" where
  "openWindow_call e s wid =
     (case querySelector_panel s wid of
        Inl err \<Rightarrow> (s, Some err)
      | Inr None \<Rightarrow> (s, None)
      | Inr (Some windowEl) \<Rightarrow>
          if map_of (openWindows s) wid = Some True then
            and_then
              (bringToFront_call
                 (s\<lparr>windows := (windows s)(wid \<mapsto> windowEl\<lparr>el_display := ''flex''\<rparr>),
                    openWindows := map_set wid False (openWindows s)\<rparr>)
                 wid)
              updateTaskbar_call
          else if el_display windowEl = ''flex'' then bringToFront_call s wid
          else
            and_then
              (bringToFront_call
                 (s\<lparr>windows := (windows s)
                      (wid \<mapsto> (position_window e s wid windowEl)\<lparr>el_display := ''flex''\<rparr>),
                    openWindows := map_set wid False (openWindows s)\<rparr>)
                 wid)
              updateTaskbar_call)"

definition openWindow :: "env \<Rightarrow> wm_state \<Rightarrow> window_id \<Rightarrow> wm_state" where
  "openWindow e s wid = fst (openWindow_call e s wid)"

definition closeWindow_call :: "wm_state \<Rightarrow> window_id \<Rightarrow> wm_state \<times> js_error option" where
  "closeWindow_call s wid =
     (case querySelector_panel s wid of
        Inl err \<Rightarrow> (s, Some err)
      | Inr None \<Rightarrow> (s, None)
      | Inr (Some windowEl) \<Rightarrow>
          updateTaskbar_call
            (s\<lparr>windows := (windows s)
                 (wid \<mapsto> windowEl\<lparr>el_display := ''none'', el_maximized := False\<rparr>),
               openWindows := map_delete wid (openWindows s)\<rparr>))"

definition closeWindow :: "wm_state \<Rightarrow> window_id \<Rightarrow> wm_state" where
  "closeWindow s wid = fst (closeWindow_call s wid)"

definition minimizeWindow_call :: "wm_state \<Rightarrow> window_id \<Rightarrow> wm_state \<times> js_error option" where
  "minimizeWindow_call s wid =
     (case querySelector_panel s wid of
        Inl err \<Rightarrow> (s, Some err)
      | Inr None \<Rightarrow> (s, None)
      | Inr (Some windowEl) \<Rightarrow>
          updateTaskbar_call
            (s\<lparr>windows := (windows s)(wid \<mapsto> windowEl\<lparr>el_display := ''none''\<rparr>),
               openWindows := map_set wid True (openWindows s)\<rparr>))"

definition minimizeWindow :: "wm_state \<Rightarrow> window_id \<Rightarrow> wm_state" where
  "minimizeWindow s wid = fst (minimizeWindow_call s wid)"

definition toggleMaximize_call :: "env \<Rightarrow> wm_state \<Rightarrow> window_id \<Rightarrow> wm_state \<times> js_error option" where
  "toggleMaximize_call e s wid =
     (case querySelector_panel s wid of
        Inl err \<Rightarrow> (s, Some err)
      | Inr None \<Rightarrow> (s, None)
      | Inr (Some windowEl) \<Rightarrow>
          if el_maximized windowEl then
            (case windowPositions s wid of
               Some saved \<Rightarrow>
                 (s\<lparr>windows := (windows s)
                      (wid \<mapsto> windowEl\<lparr>el_maximized := False,
                                       el_left := Px (sg_x saved), el_top := Px (sg_y saved),
                                       el_width := sg_w saved, el_height := sg_h saved\<rparr>)\<rparr>,
                  None)
             | None \<Rightarrow>
                 (s\<lparr>windows := (windows s)(wid \<mapsto> windowEl\<lparr>el_maximized := False\<rparr>)\<rparr>, None))
          else
            (s\<lparr>windowPositions := (windowPositions s)
                  (wid \<mapsto> \<lparr>sg_x = offsetLeft (panelBox e wid),
                            sg_y = offsetTop (panelBox e wid),
                            sg_w = len_or (el_width windowEl) (Px (offsetWidth (panelBox e wid))),
                            sg_h = len_or (el_height windowEl) (Px (offsetHeight (panelBox e wid)))\<rparr>),
                windows := (windows s)(wid \<mapsto> windowEl\<lparr>el_maximized := True\<rparr>)\<rparr>,
             None))"

definition toggleMaximize :: "env \<Rightarrow> wm_state \<Rightarrow> window_id \<Rightarrow> wm_state" where
  "toggleMaximize e s wid = fst (toggleMaximize_call e s wid)"

text \<open>
  The state \<^verbatim>\<open>openWindow\<close> hands to \<^verbatim>\<open>bringToFront\<close> once the panel is found: the restored,
  untouched or freshly placed panel with its registry record.
\<close>

definition open_prepared :: "env \<Rightarrow> wm_state \<Rightarrow> window_id \<Rightarrow> element \<Rightarrow> wm_state" where
  "open_prepared e s wid el =
     (if map_of (openWindows s) wid = Some True then
        s\<lparr>windows := (windows s)(wid \<mapsto> el\<lparr>el_display := ''flex''\<rparr>),
          openWindows := map_set wid False (openWindows s)\<rparr>
      else if el_display el = ''flex'' then s
      else s\<lparr>windows := (windows s)(wid \<mapsto> (position_window e s wid el)\<lparr>el_display := ''flex''\<rparr>),
             openWindows := map_set wid False (openWindows s)\<rparr>)"

section \<open>Pointer sessions\<close>

subsection \<open>Folder icons\<close>

definition folder_onPointerDown ::
  "env \<Rightarrow> wm_state \<Rightarrow> window_id \<Rightarrow> number \<Rightarrow> number \<Rightarrow> wm_state" where
  "folder_onPointerDown e s fid cx cy =
     (case folders s fid of
        None \<Rightarrow> s
      | Some el \<Rightarrow>
          if isMobile e then s
          else s\<lparr>folderDrag := (folderDrag s)
                   (fid := \<lparr>fs_isDragging = True, fs_hasMoved = False,
                            fs_startX = cx, fs_startY = cy,
                            fs_origX = offsetLeft (iconBox e fid),
                            fs_origY = offsetTop (iconBox e fid)\<rparr>),
                 folders := (folders s)(fid \<mapsto> el\<lparr>fo_zIndex := Some 50\<rparr>)\<rparr>)"

definition folder_select :: "wm_state \<Rightarrow> window_id \<Rightarrow> wm_state" where
  "folder_select s fid =
     (case folders s fid of
        None \<Rightarrow> s
      | Some el \<Rightarrow>
          s\<lparr>folders := (\<lambda>k. map_option (\<lambda>f. f\<lparr>fo_selected := (k = fid)\<rparr>) (folders s k))\<rparr>)"

definition folder_move_session :: "number \<Rightarrow> number \<Rightarrow> folder_session \<Rightarrow> folder_session" where
  "folder_move_session cx cy fs =
     (if \<not> fs_isDragging fs then fs
      else (let dx = cx - fs_startX fs; dy = cy - fs_startY fs
            in if \<bar>dx\<bar> > 3 \<or> \<bar>dy\<bar> > 3 then fs\<lparr>fs_hasMoved := True\<rparr> else fs))"

definition folder_move_element ::
  "env \<Rightarrow> number \<Rightarrow> number \<Rightarrow> folder_session \<Rightarrow> folder \<Rightarrow> folder" where
  "folder_move_element e cx cy fs el =
     (if \<not> fs_isDragging fs then el
      else (let dx = cx - fs_startX fs; dy = cy - fs_startY fs;
                bnds = getDesktopBounds e
            in el\<lparr>fo_left := Px (clamp (fs_origX fs + dx) 0 (b_width bnds - 80)),
                  fo_top := Px (clamp (fs_origY fs + dy) 0 (b_height bnds - 80))\<rparr>))"

definition folder_dblclick :: "env \<Rightarrow> wm_state \<Rightarrow> window_id \<Rightarrow> wm_state" where
  "folder_dblclick e s fid =
     (case folders s fid of
        None \<Rightarrow> s
      | Some el \<Rightarrow> if fid \<noteq> [] then openWindow e s fid else s)"

definition folder_click :: "env \<Rightarrow> wm_state \<Rightarrow> window_id \<Rightarrow> wm_state" where
  "folder_click e s fid =
     (case folders s fid of
        None \<Rightarrow> s
      | Some el \<Rightarrow>
          if isMobile e \<or> \<not> fs_hasMoved (folderDrag s fid) then
            (if isMobile e then (if fid \<noteq> [] then openWindow e s fid else s) else s)
          else s)"

subsection \<open>Dragging a window by its title bar\<close>

definition titlebar_onPointerDown ::
  "env \<Rightarrow> wm_state \<Rightarrow> window_id \<Rightarrow> bool \<Rightarrow> number \<Rightarrow> number \<Rightarrow> wm_state" where
  "titlebar_onPointerDown e s wid onButton cx cy =
     (case windows s wid of
        None \<Rightarrow> s
      | Some windowEl \<Rightarrow>
          if \<not> el_hasTitlebar windowEl then s
          else if isMobile e then s
          else if onButton then s
          else if el_maximized windowEl then s
          else bringToFront
                 (s\<lparr>winDrag := (winDrag s)
                      (wid := \<lparr>ds_isDragging = True, ds_startX = cx, ds_startY = cy,
                               ds_origX = offsetLeft (panelBox e wid),
                               ds_origY = offsetTop (panelBox e wid)\<rparr>)\<rparr>)
                 wid)"

definition window_onPointerDown :: "wm_state \<Rightarrow> window_id \<Rightarrow> wm_state" where
  "window_onPointerDown s wid =
     (case windows s wid of
        None \<Rightarrow> s
      | Some windowEl \<Rightarrow> if el_hasTitlebar windowEl then bringToFront s wid else s)"

definition drag_move ::
  "env \<Rightarrow> number \<Rightarrow> number \<Rightarrow> window_id \<Rightarrow> drag_session \<Rightarrow> element \<Rightarrow> element" where
  "drag_move e cx cy wid ds windowEl =
     (if \<not> el_hasTitlebar windowEl \<or> \<not> ds_isDragging ds then windowEl
      else (let dx = cx - ds_startX ds; dy = cy - ds_startY ds;
                bnds = getDesktopBounds e
            in windowEl
                 \<lparr>el_left := Px (clamp (ds_origX ds + dx)
                                   (- offsetWidth (panelBox e wid) + 100) (b_width bnds - 50)),
                  el_top := Px (clamp (ds_origY ds + dy) 0 (b_height bnds - 40))\<rparr>))"

definition drag_commits :: "wm_state \<Rightarrow> window_id \<Rightarrow> bool" where
  "drag_commits s wid =
     (case windows s wid of
        None \<Rightarrow> False
      | Some windowEl \<Rightarrow> el_hasTitlebar windowEl \<and> ds_isDragging (winDrag s wid))"

definition drag_saved :: "env \<Rightarrow> wm_state \<Rightarrow> window_id \<Rightarrow> saved_geometry option" where
  "drag_saved e s wid =
     (case windows s wid of
        None \<Rightarrow> windowPositions s wid
      | Some windowEl \<Rightarrow>
          if drag_commits s wid \<and> wid \<noteq> [] then
            Some \<lparr>sg_x = offsetLeft (panelBox e wid), sg_y = offsetTop (panelBox e wid),
                  sg_w = el_width windowEl, sg_h = el_height windowEl\<rparr>
          else windowPositions s wid)"

subsection \<open>Resizing a window by its handle\<close>

definition handle_onPointerDown ::
  "env \<Rightarrow> wm_state \<Rightarrow> window_id \<Rightarrow> number \<Rightarrow> number \<Rightarrow> wm_state" where
  "handle_onPointerDown e s wid cx cy =
     (case windows s wid of
        None \<Rightarrow> s
      | Some windowEl \<Rightarrow>
          if \<not> el_hasHandle windowEl then s
          else if isMobile e then s
          else s\<lparr>winResize := (winResize s)
                   (wid := \<lparr>rs_isResizing = True, rs_startX = cx, rs_startY = cy,
                            rs_startW = offsetWidth (panelBox e wid),
                            rs_startH = offsetHeight (panelBox e wid)\<rparr>)\<rparr>)"

definition resize_move :: "number \<Rightarrow> number \<Rightarrow> resize_session \<Rightarrow> element \<Rightarrow> element" where
  "resize_move cx cy rs windowEl =
     (if \<not> el_hasHandle windowEl \<or> \<not> rs_isResizing rs then windowEl
      else (let w = max 320 (rs_startW rs + (cx - rs_startX rs));
                h = max 200 (rs_startH rs + (cy - rs_startY rs))
            in windowEl\<lparr>el_width := Px w, el_height := Px h\<rparr>))"

subsection \<open>The document-level listeners\<close>

text \<open>
  Every icon, title bar and handle registers its own \<^verbatim>\<open>pointermove\<close> and \<^verbatim>\<open>pointerup\<close>
  listener on the document, so one event runs all of them; each looks at its own session.
\<close>

definition document_onPointerMove :: "env \<Rightarrow> wm_state \<Rightarrow> number \<Rightarrow> number \<Rightarrow> wm_state" where
  "document_onPointerMove e s cx cy =
     s\<lparr>folderDrag := (\<lambda>k. case folders s k of
                             None \<Rightarrow> folderDrag s k
                           | Some el \<Rightarrow> folder_move_session cx cy (folderDrag s k)),
       folders := (\<lambda>k. map_option (folder_move_element e cx cy (folderDrag s k)) (folders s k)),
       windows := (\<lambda>k. map_option
                          (\<lambda>w. resize_move cx cy (winResize s k)
                                 (drag_move e cx cy k (winDrag s k) w))
                          (windows s k))\<rparr>"

definition document_onPointerUp :: "env \<Rightarrow> wm_state \<Rightarrow> wm_state" where
  "document_onPointerUp e s =
     s\<lparr>folderDrag := (\<lambda>k. case folders s k of
                             None \<Rightarrow> folderDrag s k
                           | Some el \<Rightarrow> (folderDrag s k)\<lparr>fs_isDragging := False\<rparr>),
       winDrag := (\<lambda>k. if drag_commits s k then (winDrag s k)\<lparr>ds_isDragging := False\<rparr>
                        else winDrag s k),
       windowPositions := (\<lambda>k. drag_saved e s k),
       winResize := (\<lambda>k. case windows s k of
                            None \<Rightarrow> winResize s k
                          | Some windowEl \<Rightarrow>
                              if el_hasHandle windowEl
                              then (winResize s k)\<lparr>rs_isResizing := False\<rparr>
                              else winResize s k)\<rparr>"

definition desktop_onPointerDown :: "wm_state \<Rightarrow> wm_state" where
  "desktop_onPointerDown s =
     s\<lparr>folders := (\<lambda>k. map_option (\<lambda>f. f\<lparr>fo_selected := False\<rparr>) (folders s k))\<rparr>"

section \<open>Controls, taskbar buttons and the event loop\<close>

datatype action = ActClose | ActMinimize | ActMaximize | ActOther

definition control_click :: "env \<Rightarrow> wm_state \<Rightarrow> window_id \<Rightarrow> action \<Rightarrow> wm_state" where
  "control_click e s wid a =
     (case a of
        ActClose \<Rightarrow> closeWindow s wid
      | ActMinimize \<Rightarrow> minimizeWindow s wid
      | ActMaximize \<Rightarrow> toggleMaximize e s wid
      | ActOther \<Rightarrow> s)"

text \<open>
  The click listener of a taskbar button closes over the registry record and the panel it
  was built from. The taskbar is rebuilt after every change of the registry, so a button
  that is there belongs to a record that is there.
\<close>

definition taskbar_click :: "env \<Rightarrow> wm_state \<Rightarrow> window_id \<Rightarrow> wm_state" where
  "taskbar_click e s wid =
     (case taskbar s of
        None \<Rightarrow> s
      | Some items \<Rightarrow>
          if wid \<notin> set (map ti_window items) then s
          else (case (map_of (openWindows s) wid, windows s wid) of
                  (Some minimized, Some windowEl) \<Rightarrow>
                    if minimized then openWindow e s wid
                    else if el_active windowEl then minimizeWindow s wid
                    else bringToFront s wid
                | _ \<Rightarrow> s))"

text \<open>
  One constructor per DOM event, with the listeners it reaches in dispatch order. A
  \<^verbatim>\<open>pointerdown\<close> on the title bar (or on a control button in it) runs the title bar's
  listener and then bubbles to the panel's; one on the resize handle stops at the handle's
  listener, unless that listener returned early on a narrow viewport, before
  \<^verbatim>\<open>stopPropagation\<close>. An exception escaping a listener is reported by the browser and the
  state it left stays.
\<close>

datatype event =
    FolderPointerDown window_id number number
  | FolderDblClick window_id
  | FolderClick window_id
  | TitlebarPointerDown window_id bool number number
  | WindowPointerDown window_id
  | HandlePointerDown window_id number number
  | ControlClick window_id action
  | TaskbarClick window_id
  | PointerMove number number
  | PointerUp
  | DesktopPointerDown
  | OpenDefault window_id

fun step :: "wm_state \<Rightarrow> env \<times> event \<Rightarrow> wm_state" where
  "step s (e, FolderPointerDown fid cx cy) = folder_select (folder_onPointerDown e s fid cx cy) fid"
| "step s (e, FolderDblClick fid) = folder_dblclick e s fid"
| "step s (e, FolderClick fid) = folder_click e s fid"
| "step s (e, TitlebarPointerDown wid onButton cx cy) =
     window_onPointerDown (titlebar_onPointerDown e s wid onButton cx cy) wid"
| "step s (e, WindowPointerDown wid) = window_onPointerDown s wid"
| "step s (e, HandlePointerDown wid cx cy) =
     (if isMobile e then window_onPointerDown (handle_onPointerDown e s wid cx cy) wid
      else handle_onPointerDown e s wid cx cy)"
| "step s (e, ControlClick wid a) = control_click e s wid a"
| "step s (e, TaskbarClick wid) = taskbar_click e s wid"
| "step s (e, PointerMove cx cy) = document_onPointerMove e s cx cy"
| "step s (e, PointerUp) = document_onPointerUp e s"
| "step s (e, DesktopPointerDown) = desktop_onPointerDown s"
| "step s (e, OpenDefault fid) = (if fid \<noteq> [] then openWindow e s fid else s)"

definition run :: "wm_state \<Rightarrow> (env \<times> event) list \<Rightarrow> wm_state" where
  "run s evs = foldl step s evs"

section \<open>Sessions of calls and the saved-geometry invariant\<close>

text \<open>The states after each of a series of \<^verbatim>\<open>bringToFront\<close> calls, in order.\<close>

fun front_states :: "wm_state \<Rightarrow> window_id list \<Rightarrow> wm_state list" where
  "front_states s [] = []"
| "front_states s (w # ws) = bringToFront s w # front_states (bringToFront s w) ws"

text \<open>
  Panel \<open>w\<close> carries the \<^verbatim>\<open>active\<close> class and the current count of the counter as its
  stacking order, and no other panel carries the class.
\<close>

definition only_active :: "wm_state \<Rightarrow> window_id \<Rightarrow> bool" where
  "only_active s w =
     ((\<exists>el. windows s w = Some el \<and> el_active el \<and> el_zIndex el = Some (highestZ s))
      \<and> (\<forall>k el. windows s k = Some el \<and> el_active el \<longrightarrow> k = w))"

definition maximized_has_saved :: "wm_state \<Rightarrow> bool" where
  "maximized_has_saved s =
     (\<forall>wid el. windows s wid = Some el \<longrightarrow> el_maximized el \<longrightarrow> windowPositions s wid \<noteq> None)"

section \<open>A small desktop\<close>

text \<open>
  The state the script starts in (counter at 100, both maps empty, every session idle) over
  three hidden panels \<open>A\<close>, \<open>B\<close>, \<open>C\<close> without titles, and two readings of the layout: a
  panel that is not displayed reports zero offsets, a displayed one its box. No selector is
  rejected, and the text content of a button's markup is what stands outside its tags
  (\<open>plain_text\<close>, which is all the markup parser does to titles and glyphs without markup).
\<close>

fun plain_text :: "bool \<Rightarrow> string \<Rightarrow> string" where
  "plain_text inTag [] = []"
| "plain_text inTag (c # cs) =
     (if inTag then plain_text (c \<noteq> CHR ''>'') cs
      else if c = CHR ''<'' then plain_text True cs
      else c # plain_text False cs)"

definition idle_drag :: drag_session where
  "idle_drag = \<lparr>ds_isDragging = False, ds_startX = 0, ds_startY = 0, ds_origX = 0, ds_origY = 0\<rparr>"

definition idle_folder :: folder_session where
  "idle_folder = \<lparr>fs_isDragging = False, fs_hasMoved = False, fs_startX = 0, fs_startY = 0,
                   fs_origX = 0, fs_origY = 0\<rparr>"

definition idle_resize :: resize_session where
  "idle_resize = \<lparr>rs_isResizing = False, rs_startX = 0, rs_startY = 0, rs_startW = 0, rs_startH = 0\<rparr>"

definition hidden_panel :: element where
  "hidden_panel = \<lparr>el_display = ''none'', el_left = Unset, el_top = Unset, el_width = Unset,
                    el_height = Unset, el_zIndex = None, el_active = False, el_maximized = False,
                    el_title = None, el_hasTitlebar = True, el_hasHandle = True\<rparr>"

definition plain_icon :: folder where
  "plain_icon = \<lparr>fo_left = Unset, fo_top = Unset, fo_zIndex = None, fo_selected = False,
                  fo_icon = None\<rparr>"

definition initial_state :: "(window_id \<rightharpoonup> element) \<Rightarrow> wm_state" where
  "initial_state panels =
     \<lparr>highestZ = 100, openWindows = [], windowPositions = Map.empty, windows = panels,
      folders = Map.empty, taskbar = Some [], winDrag = (\<lambda>k. idle_drag),
      winResize = (\<lambda>k. idle_resize), folderDrag = (\<lambda>k. idle_folder),
      invalidSelector = (\<lambda>sel. False), markupText = plain_text False\<rparr>"

definition abc_desktop :: wm_state where
  "abc_desktop = initial_state [''A'' \<mapsto> hidden_panel, ''B'' \<mapsto> hidden_panel, ''C'' \<mapsto> hidden_panel]"

definition unlaid :: box where
  "unlaid = \<lparr>offsetLeft = 0, offsetTop = 0, offsetWidth = 0, offsetHeight = 0\<rparr>"

definition laid_out :: box where
  "laid_out = \<lparr>offsetLeft = 340, offsetTop = 175, offsetWidth = 600, offsetHeight = 450\<rparr>"

definition viewport :: "number \<Rightarrow> number \<Rightarrow> box \<Rightarrow> env" where
  "viewport w h b = \<lparr>innerWidth = w, innerHeight = h, panelBox = (\<lambda>k. b), iconBox = (\<lambda>k. b)\<rparr>"

definition wide_env :: env where
  "wide_env = \<lparr>innerWidth = 1280, innerHeight = 848, panelBox = (\<lambda>k. unlaid), iconBox = (\<lambda>k. unlaid)\<rparr>"

text \<open>
  Panel \<open>A\<close> opened from its icon, then its title bar, its resize handle and its icon all
  pressed: three sessions in progress.
\<close>

definition dragging_desktop :: wm_state where
  "dragging_desktop =
     run (abc_desktop\<lparr>folders := [''A'' \<mapsto> plain_icon]\<rparr>)
       [(viewport 1280 848 unlaid, FolderDblClick ''A''),
        (viewport 1280 848 laid_out, TitlebarPointerDown ''A'' False 400 200),
        (viewport 1280 848 laid_out, HandlePointerDown ''A'' 940 625),
        (viewport 1280 848 laid_out, FolderPointerDown ''A'' 360 190)]"

text \<open>The same, without the resize session.\<close>

definition moving_desktop :: wm_state where
  "moving_desktop =
     run (abc_desktop\<lparr>folders := [''A'' \<mapsto> plain_icon]\<rparr>)
       [(viewport 1280 848 unlaid, FolderDblClick ''A''),
        (viewport 1280 848 laid_out, TitlebarPointerDown ''A'' False 400 200),
        (viewport 1280 848 laid_out, FolderPointerDown ''A'' 360 190)]"

text \<open>
  Panel \<open>A\<close> opened and dragged by its title bar 100 to the right and 60 down, the pointer
  still down; \<open>moved_out\<close> is what the layout reports for it there.
\<close>

definition dragged_desktop :: wm_state where
  "dragged_desktop =
     run abc_desktop
       [(wide_env, OpenDefault ''A''),
        (viewport 1280 848 laid_out, TitlebarPointerDown ''A'' False 400 200),
        (viewport 1280 848 laid_out, PointerMove 500 260)]"

definition moved_out :: box where
  "moved_out = \<lparr>offsetLeft = 440, offsetTop = 235, offsetWidth = 600, offsetHeight = 450\<rparr>"

text \<open>
  Panel \<open>A\<close> opened and resized by its handle to 700 by 500, the session over; \<open>sized_out\<close>
  is what the layout reports for it.
\<close>

definition sized_desktop :: wm_state where
  "sized_desktop =
     run abc_desktop
       [(wide_env, OpenDefault ''A''),
        (viewport 1280 848 laid_out, HandlePointerDown ''A'' 940 625),
        (viewport 1280 848 laid_out, PointerMove 1040 675),
        (viewport 1280 848 laid_out, PointerUp)]"

definition sized_out :: box where
  "sized_out = \<lparr>offsetLeft = 340, offsetTop = 175, offsetWidth = 700, offsetHeight = 500\<rparr>"

text \<open>
  A viewport of odd size, on which the first open centres panel \<open>A\<close> at half pixels, and
  the whole-pixel offsets the layout reports for it.
\<close>

definition odd_desktop :: wm_state where
  "odd_desktop = openWindow (viewport 1281 849 unlaid) abc_desktop ''A''"

definition rounded_out :: box where
  "rounded_out = \<lparr>offsetLeft = 341, offsetTop = 176, offsetWidth = 600, offsetHeight = 450\<rparr>"

text \<open>Two boxes of a panel that is laid out before it is opened.\<close>

definition small_box :: box where
  "small_box = \<lparr>offsetLeft = 0, offsetTop = 0, offsetWidth = 500, offsetHeight = 300\<rparr>"

definition large_box :: box where
  "large_box = \<lparr>offsetLeft = 0, offsetTop = 0, offsetWidth = 640, offsetHeight = 300\<rparr>"

text \<open>
  The identity \<^verbatim>\<open>a"b\<close>, and the desktop in a browser whose parser rejects the two selector
  texts built from it.
\<close>

definition quoted_id :: window_id where
  "quoted_id = [CHR ''a'', CHR 0x22, CHR ''b'']"

definition quoted_desktop :: wm_state where
  "quoted_desktop =
     abc_desktop\<lparr>invalidSelector :=
       (\<lambda>sel. sel = ''.desktop-window[data-window-id='' @ [CHR 0x22] @ ''a'' @ [CHR 0x22]
                       @ ''b'' @ [CHR 0x22] @ '']''
            \<or> sel = ''.desktop-folder[data-folder-id='' @ [CHR 0x22] @ ''a'' @ [CHR 0x22]
                       @ ''b'' @ [CHR 0x22] @ '']'')\<rparr>"

section \<open>Basic facts\<close>

lemmas handler_defs = openWindow_def closeWindow_def minimizeWindow_def toggleMaximize_def
  openWindow_call_def closeWindow_call_def minimizeWindow_call_def toggleMaximize_call_def
  bringToFront_def bringToFront_call_def updateTaskbarActiveState_call_def updateTaskbar_call_def
  and_then_def querySelector_panel_def querySelector_folder_def button_markup_def
  taskbar_button_def mark_items_def
  position_window_def cascade_x_def cascade_y_def getDesktopBounds_def isMobile_def num_or_def
  len_or_def str_or_def map_delete_def window_onPointerDown_def titlebar_onPointerDown_def
  document_onPointerMove_def drag_move_def resize_move_def clamp_def run_def Let_def

lemmas desktop_defs = abc_desktop_def initial_state_def hidden_panel_def idle_drag_def
  idle_folder_def idle_resize_def wide_env_def unlaid_def viewport_def laid_out_def default_icon_def

lemmas session_defs = dragging_desktop_def moving_desktop_def dragged_desktop_def sized_desktop_def
  plain_icon_def document_onPointerUp_def drag_commits_def drag_saved_def folder_dblclick_def folder_select_def
  folder_onPointerDown_def handle_onPointerDown_def folder_move_element_def folder_move_session_def

lemmas more_defs = quoted_desktop_def quoted_id_def panel_selector_def folder_selector_def
  odd_desktop_def rounded_out_def sized_out_def small_box_def large_box_def moved_out_def

lemma updateTaskbar_fields [simp]:
  "highestZ (updateTaskbar s) = highestZ s"
  "openWindows (updateTaskbar s) = openWindows s"
  "windowPositions (updateTaskbar s) = windowPositions s"
  "windows (updateTaskbar s) = windows s"
  "folders (updateTaskbar s) = folders s"
  "winDrag (updateTaskbar s) = winDrag s"
  "winResize (updateTaskbar s) = winResize s"
  "folderDrag (updateTaskbar s) = folderDrag s"
  "invalidSelector (updateTaskbar s) = invalidSelector s"
  "markupText (updateTaskbar s) = markupText s"
  by (simp_all add: updateTaskbar_def updateTaskbar_call_def split: option.splits)

lemma fst_updateTaskbar_call [simp]: "fst (updateTaskbar_call s) = updateTaskbar s"
  by (simp add: updateTaskbar_def)

lemma then_updateTaskbar_fields [simp]:
  "highestZ (fst (and_then r updateTaskbar_call)) = highestZ (fst r)"
  "openWindows (fst (and_then r updateTaskbar_call)) = openWindows (fst r)"
  "windowPositions (fst (and_then r updateTaskbar_call)) = windowPositions (fst r)"
  "windows (fst (and_then r updateTaskbar_call)) = windows (fst r)"
  "folders (fst (and_then r updateTaskbar_call)) = folders (fst r)"
  "winDrag (fst (and_then r updateTaskbar_call)) = winDrag (fst r)"
  "winResize (fst (and_then r updateTaskbar_call)) = winResize (fst r)"
  "folderDrag (fst (and_then r updateTaskbar_call)) = folderDrag (fst r)"
  "invalidSelector (fst (and_then r updateTaskbar_call)) = invalidSelector (fst r)"
  "markupText (fst (and_then r updateTaskbar_call)) = markupText (fst r)"
  by (simp_all add: and_then_def split: option.splits)

lemma updateTaskbarActiveState_fields [simp]:
  "highestZ (updateTaskbarActiveState s a) = highestZ s"
  "openWindows (updateTaskbarActiveState s a) = openWindows s"
  "windowPositions (updateTaskbarActiveState s a) = windowPositions s"
  "windows (updateTaskbarActiveState s a) = windows s"
  "folders (updateTaskbarActiveState s a) = folders s"
  "winDrag (updateTaskbarActiveState s a) = winDrag s"
  "winResize (updateTaskbarActiveState s a) = winResize s"
  "folderDrag (updateTaskbarActiveState s a) = folderDrag s"
  "invalidSelector (updateTaskbarActiveState s a) = invalidSelector s"
  "markupText (updateTaskbarActiveState s a) = markupText s"
  by (simp_all add: updateTaskbarActiveState_def updateTaskbarActiveState_call_def)

lemma fst_updateTaskbarActiveState_call [simp]:
  "fst (updateTaskbarActiveState_call s a) = updateTaskbarActiveState s a"
  by (simp add: updateTaskbarActiveState_def)

lemma bringToFront_state:
  "bringToFront s w =
     (case windows s w of
        None \<Rightarrow> s
      | Some el \<Rightarrow>
          updateTaskbarActiveState
            (s\<lparr>highestZ := highestZ s + 1,
               windows := (\<lambda>k. map_option (\<lambda>x. x\<lparr>el_active := False\<rparr>) (windows s k))
                            (w \<mapsto> el\<lparr>el_zIndex := Some (highestZ s + 1), el_active := True\<rparr>)\<rparr>)
            w)"
  by (simp add: bringToFront_def bringToFront_call_def Let_def split: option.splits)

lemma fst_bringToFront_call [simp]: "fst (bringToFront_call s w) = bringToFront s w"
  by (simp add: bringToFront_def)

lemma bringToFront_fields [simp]:
  "openWindows (bringToFront s w) = openWindows s"
  "windowPositions (bringToFront s w) = windowPositions s"
  "folders (bringToFront s w) = folders s"
  "winDrag (bringToFront s w) = winDrag s"
  "winResize (bringToFront s w) = winResize s"
  "folderDrag (bringToFront s w) = folderDrag s"
  "invalidSelector (bringToFront s w) = invalidSelector s"
  "markupText (bringToFront s w) = markupText s"
  by (simp_all add: bringToFront_state split: option.splits)

lemma bringToFront_highestZ:
  "windows s w = Some el \<Longrightarrow> highestZ (bringToFront s w) = highestZ s + 1"
  by (simp add: bringToFront_state)

lemma bringToFront_highestZ_le: "highestZ s \<le> highestZ (bringToFront s w)"
  by (simp add: bringToFront_state split: option.splits)

lemma bringToFront_windows:
  "windows s w = Some el \<Longrightarrow>
   windows (bringToFront s w) =
     (\<lambda>k. map_option (\<lambda>x. x\<lparr>el_active := False\<rparr>) (windows s k))
       (w \<mapsto> el\<lparr>el_zIndex := Some (highestZ s + 1), el_active := True\<rparr>)"
  by (simp add: bringToFront_state)

lemma bringToFront_maximized:
  "windows (bringToFront s w) k = Some el' \<Longrightarrow>
   \<exists>el. windows s k = Some el \<and> el_maximized el' = el_maximized el"
  by (auto simp: bringToFront_state split: option.splits if_splits)

lemma bringToFront_dom [simp]: "dom (windows (bringToFront s w)) = dom (windows s)"
  by (auto simp: bringToFront_state split: option.splits if_splits)

lemma map_of_map_delete [simp]: "map_of (map_delete k ps) k = None"
  by (induction ps) (auto simp: map_delete_def)

lemma map_of_map_set [simp]: "map_of (map_set k v ps) k = Some v"
  by (induction ps) auto

lemma map_set_fresh: "map_of ps k = None \<Longrightarrow> map_set k v ps = ps @ [(k, v)]"
  by (induction ps) (auto split: if_splits)

text \<open>The four operations, as states, in terms of the panel map.\<close>

lemma querySelector_panel_Some [simp]:
  "windows s wid = Some el \<Longrightarrow> querySelector_panel s wid = Inr (Some el)"
  by (simp add: querySelector_panel_def)

lemma openWindow_missing [simp]: "windows s wid = None \<Longrightarrow> openWindow e s wid = s"
  by (simp add: openWindow_def openWindow_call_def querySelector_panel_def)

lemma closeWindow_missing [simp]: "windows s wid = None \<Longrightarrow> closeWindow s wid = s"
  by (simp add: closeWindow_def closeWindow_call_def querySelector_panel_def)

lemma minimizeWindow_missing [simp]: "windows s wid = None \<Longrightarrow> minimizeWindow s wid = s"
  by (simp add: minimizeWindow_def minimizeWindow_call_def querySelector_panel_def)

lemma toggleMaximize_missing [simp]: "windows s wid = None \<Longrightarrow> toggleMaximize e s wid = s"
  by (simp add: toggleMaximize_def toggleMaximize_call_def querySelector_panel_def)

lemma closeWindow_state:
  "windows s wid = Some el \<Longrightarrow>
   closeWindow s wid =
     updateTaskbar (s\<lparr>windows := (windows s)(wid \<mapsto> el\<lparr>el_display := ''none'', el_maximized := False\<rparr>),
                      openWindows := map_delete wid (openWindows s)\<rparr>)"
  by (simp add: closeWindow_def closeWindow_call_def)

lemma minimizeWindow_state:
  "windows s wid = Some el \<Longrightarrow>
   minimizeWindow s wid =
     updateTaskbar (s\<lparr>windows := (windows s)(wid \<mapsto> el\<lparr>el_display := ''none''\<rparr>),
                      openWindows := map_set wid True (openWindows s)\<rparr>)"
  by (simp add: minimizeWindow_def minimizeWindow_call_def)

lemma toggleMaximize_state:
  "windows s wid = Some el \<Longrightarrow>
   toggleMaximize e s wid =
     (if el_maximized el then
        (case windowPositions s wid of
           Some saved \<Rightarrow>
             s\<lparr>windows := (windows s)
                 (wid \<mapsto> el\<lparr>el_maximized := False,
                            el_left := Px (sg_x saved), el_top := Px (sg_y saved),
                            el_width := sg_w saved, el_height := sg_h saved\<rparr>)\<rparr>
         | None \<Rightarrow> s\<lparr>windows := (windows s)(wid \<mapsto> el\<lparr>el_maximized := False\<rparr>)\<rparr>)
      else
        s\<lparr>windowPositions := (windowPositions s)
             (wid \<mapsto> \<lparr>sg_x = offsetLeft (panelBox e wid),
                       sg_y = offsetTop (panelBox e wid),
                       sg_w = len_or (el_width el) (Px (offsetWidth (panelBox e wid))),
                       sg_h = len_or (el_height el) (Px (offsetHeight (panelBox e wid)))\<rparr>),
           windows := (windows s)(wid \<mapsto> el\<lparr>el_maximized := True\<rparr>)\<rparr>)"
  by (simp add: toggleMaximize_def toggleMaximize_call_def split: option.splits)

lemma open_prepared_fields [simp]:
  "highestZ (open_prepared e s wid el) = highestZ s"
  "windowPositions (open_prepared e s wid el) = windowPositions s"
  "folders (open_prepared e s wid el) = folders s"
  "winDrag (open_prepared e s wid el) = winDrag s"
  "winResize (open_prepared e s wid el) = winResize s"
  "folderDrag (open_prepared e s wid el) = folderDrag s"
  by (simp_all add: open_prepared_def)

lemma openWindow_fields:
  assumes "windows s wid = Some el"
  shows "highestZ (openWindow e s wid) = highestZ (bringToFront (open_prepared e s wid el) wid)"
    "openWindows (openWindow e s wid) = openWindows (bringToFront (open_prepared e s wid el) wid)"
    "windowPositions (openWindow e s wid) = windowPositions (bringToFront (open_prepared e s wid el) wid)"
    "windows (openWindow e s wid) = windows (bringToFront (open_prepared e s wid el) wid)"
    "folders (openWindow e s wid) = folders (bringToFront (open_prepared e s wid el) wid)"
    "winDrag (openWindow e s wid) = winDrag (bringToFront (open_prepared e s wid el) wid)"
    "winResize (openWindow e s wid) = winResize (bringToFront (open_prepared e s wid el) wid)"
    "folderDrag (openWindow e s wid) = folderDrag (bringToFront (open_prepared e s wid el) wid)"
  using assms by (simp_all add: openWindow_def openWindow_call_def open_prepared_def)

lemma openWindow_windowPositions [simp]:
  "windowPositions (openWindow e s wid) = windowPositions s"
proof (cases "windows s wid")
  case None
  then show ?thesis by simp
next
  case (Some el)
  then show ?thesis by (simp add: openWindow_fields)
qed

lemma closeWindow_windowPositions [simp]:
  "windowPositions (closeWindow s wid) = windowPositions s"
  by (cases "windows s wid") (simp_all add: closeWindow_state)

lemma minimizeWindow_windowPositions [simp]:
  "windowPositions (minimizeWindow s wid) = windowPositions s"
  by (cases "windows s wid") (simp_all add: minimizeWindow_state)

lemma drag_move_maximized [simp]: "el_maximized (drag_move e cx cy k ds el) = el_maximized el"
  by (simp add: drag_move_def Let_def)

lemma drag_move_hasHandle [simp]: "el_hasHandle (drag_move e cx cy k ds el) = el_hasHandle el"
  by (simp add: drag_move_def Let_def)

lemma resize_move_maximized [simp]: "el_maximized (resize_move cx cy rs el) = el_maximized el"
  by (simp add: resize_move_def Let_def)

lemma resize_move_position [simp]:
  "el_left (resize_move cx cy rs el) = el_left el"
  "el_top (resize_move cx cy rs el) = el_top el"
  by (simp_all add: resize_move_def Let_def)

section \<open>The taskbar highlight\<close>

text \<open>
  Claim C1 says that a taskbar item is marked active exactly when its window holds the
  topmost stacking order, so that after opening \<open>A\<close>, \<open>B\<close>, \<open>C\<close> and bringing \<open>B\<close> to the
  front only the item of \<open>B\<close> is marked. The first half of \<^verbatim>\<open>updateTaskbarActiveState\<close>
  does mark only the items matching the focused identity, but the rebuild that ends it
  marks every item whose record is not minimized. On the three-window scenario the rebuilt
  taskbar therefore marks all three items, while among the panels only \<open>B\<close> is active and
  the stacking orders are \<open>101 < 103 < 104\<close> for \<open>A\<close>, \<open>C\<close>, \<open>B\<close>.
\<close>

theorem taskbar_marks_all_visible:
  "taskbar (run abc_desktop [(wide_env, OpenDefault ''A''), (wide_env, OpenDefault ''B''),
      (wide_env, OpenDefault ''C''), (wide_env, WindowPointerDown ''B'')])
   = Some [\<lparr>ti_window = ''A'', ti_text = default_icon @ ''A'', ti_active = True\<rparr>,
           \<lparr>ti_window = ''B'', ti_text = default_icon @ ''B'', ti_active = True\<rparr>,
           \<lparr>ti_window = ''C'', ti_text = default_icon @ ''C'', ti_active = True\<rparr>]
   \<and> map (\<lambda>k. map_option (\<lambda>w. (el_active w, el_zIndex w))
        (windows (run abc_desktop [(wide_env, OpenDefault ''A''), (wide_env, OpenDefault ''B''),
           (wide_env, OpenDefault ''C''), (wide_env, WindowPointerDown ''B'')]) k))
        [''A'', ''B'', ''C'']
     = [Some (False, Some 101), Some (True, Some 104), Some (False, Some 103)]"
  by (simp add: handler_defs desktop_defs)

section \<open>Saved geometry across close and reopen\<close>

lemma toggleMaximize_windowPositions_other:
  "k \<noteq> wid \<Longrightarrow> windowPositions (toggleMaximize e s k) wid = windowPositions s wid"
  by (cases "windows s k") (simp_all add: toggleMaximize_state split: option.splits)

lemma toggleMaximize_windowPositions_restore:
  "windows s wid = Some el \<Longrightarrow> el_maximized el \<Longrightarrow>
   windowPositions (toggleMaximize e s wid) = windowPositions s"
  by (simp add: toggleMaximize_state split: option.splits)

lemma window_onPointerDown_windowPositions [simp]:
  "windowPositions (window_onPointerDown s w) = windowPositions s"
  by (simp add: window_onPointerDown_def split: option.splits)

lemma titlebar_onPointerDown_windowPositions [simp]:
  "windowPositions (titlebar_onPointerDown e s w b cx cy) = windowPositions s"
  by (simp add: titlebar_onPointerDown_def split: option.splits)

lemma handle_onPointerDown_windowPositions [simp]:
  "windowPositions (handle_onPointerDown e s w cx cy) = windowPositions s"
  by (simp add: handle_onPointerDown_def split: option.splits)

lemma folder_handlers_windowPositions [simp]:
  "windowPositions (folder_select s f) = windowPositions s"
  "windowPositions (folder_onPointerDown e s f cx cy) = windowPositions s"
  "windowPositions (folder_dblclick e s f) = windowPositions s"
  "windowPositions (folder_click e s f) = windowPositions s"
  by (simp_all add: folder_select_def folder_onPointerDown_def folder_dblclick_def
      folder_click_def split: option.splits)

lemma taskbar_click_windowPositions [simp]:
  "windowPositions (taskbar_click e s w) = windowPositions s"
  by (simp add: taskbar_click_def split: option.splits)

lemma step_writes_saved_geometry:
  assumes "windows s wid = Some el"
    and "windowPositions (step s (e, ev)) wid \<noteq> windowPositions s wid"
  shows "(ev = PointerUp \<and> el_hasTitlebar el \<and> ds_isDragging (winDrag s wid) \<and> wid \<noteq> [])
       \<or> (ev = ControlClick wid ActMaximize \<and> \<not> el_maximized el)"
proof (cases ev)
  case (ControlClick k a)
  show ?thesis
  proof (cases a)
    case ActMaximize
    show ?thesis
    proof (cases "k = wid")
      case True
      then show ?thesis
        using assms ControlClick ActMaximize toggleMaximize_windowPositions_restore [of s wid el e]
        by (auto simp: control_click_def)
    next
      case False
      then show ?thesis
        using assms ControlClick ActMaximize
        by (simp add: control_click_def toggleMaximize_windowPositions_other)
    qed
  qed (insert assms ControlClick, simp_all add: control_click_def)
next
  case PointerUp
  then show ?thesis
    using assms
    by (auto simp: document_onPointerUp_def drag_saved_def drag_commits_def split: if_splits)
qed (insert assms, simp_all add: document_onPointerMove_def desktop_onPointerDown_def
    split: if_splits)

text \<open>
  Claim C2, as stated, has the first open of an identity write its cascade placement into
  the saved geometry, and a later reopen restore that placement. It does not: after the
  first open of \<open>A\<close> there is still no saved geometry for \<open>A\<close>, and with \<open>B\<close> opened in
  between, closing and reopening \<open>A\<close> places it at 370 where the first open had placed it
  at 340.
\<close>

theorem first_open_saves_nothing:
  "windowPositions (openWindow wide_env abc_desktop ''A'') ''A'' = None
   \<and> map_option el_left (windows (openWindow wide_env abc_desktop ''A'') ''A'') = Some (Px 340)
   \<and> map_option el_left
        (windows (openWindow wide_env
                    (closeWindow (openWindow wide_env (openWindow wide_env abc_desktop ''A'') ''B'')
                       ''A'') ''A'') ''A'')
      = Some (Px 370)"
  by (simp add: handler_defs desktop_defs)

text \<open>
  Claim C2, amended. Opening never writes the saved geometry: of all events, only the
  pointer-up that ends a drag session of the window, and the maximize control of the window
  while it is not maximized, change the saved geometry of an identity. The pointer-up saves
  the offsets the layout reports and the inline width and height; the maximize control saves
  the reported offsets too. For an identity whose panel exists, in any state, closing leaves
  the identity not open and the saved geometry as it was; a following open on a viewport
  that is not narrow displays the panel with its inline width and height untouched, at the
  saved position when there is one (so at the position committed by the last drag) and
  otherwise at the cascade placement computed from the number of records then in the
  registry.
\<close>

theorem reopen_after_close:
  assumes "windows s wid = Some el"
  shows "windowPositions (openWindow e s wid) = windowPositions s
       \<and> \<not> isOpen (closeWindow s wid) wid
       \<and> windowPositions (closeWindow s wid) = windowPositions s
       \<and> (\<not> isMobile e' \<longrightarrow>
            (\<exists>el'. windows (openWindow e' (closeWindow s wid) wid) wid = Some el'
               \<and> el_display el' = ''flex''
               \<and> el_width el' = el_width el \<and> el_height el' = el_height el
               \<and> (case windowPositions s wid of
                     Some saved \<Rightarrow> el_left el' = Px (sg_x saved) \<and> el_top el' = Px (sg_y saved)
                   | None \<Rightarrow>
                       el_left el'
                         = Px (max 40 ((innerWidth e'
                                         - (if offsetWidth (panelBox e' wid) = 0 then 600
                                            else offsetWidth (panelBox e' wid))) / 2
                                       + 30 * of_nat (length (openWindows (closeWindow s wid)))))
                     \<and> el_top el'
                         = Px (max 20 (((innerHeight e' - 48)
                                         - (if offsetHeight (panelBox e' wid) = 0 then 450
                                            else offsetHeight (panelBox e' wid))) / 2
                                       + 30 * of_nat (length (openWindows (closeWindow s wid))))))))
       \<and> (\<forall>ev. windowPositions (step s (e, ev)) wid \<noteq> windowPositions s wid \<longrightarrow>
            (ev = PointerUp \<and> el_hasTitlebar el \<and> ds_isDragging (winDrag s wid) \<and> wid \<noteq> [])
          \<or> (ev = ControlClick wid ActMaximize \<and> \<not> el_maximized el))
       \<and> (el_hasTitlebar el \<and> ds_isDragging (winDrag s wid) \<and> wid \<noteq> [] \<longrightarrow>
            windowPositions (step s (e, PointerUp)) wid
              = Some \<lparr>sg_x = offsetLeft (panelBox e wid), sg_y = offsetTop (panelBox e wid),
                      sg_w = el_width el, sg_h = el_height el\<rparr>
          \<and> (\<not> isMobile e' \<longrightarrow>
               (\<exists>el'. windows (openWindow e' (closeWindow (step s (e, PointerUp)) wid) wid) wid
                         = Some el'
                  \<and> el_display el' = ''flex''
                  \<and> el_left el' = Px (offsetLeft (panelBox e wid))
                  \<and> el_top el' = Px (offsetTop (panelBox e wid))
                  \<and> el_width el' = el_width el \<and> el_height el' = el_height el)))
       \<and> (\<not> el_maximized el \<longrightarrow>
            map_option (\<lambda>g. (sg_x g, sg_y g)) (windowPositions (step s (e, ControlClick wid ActMaximize)) wid)
              = Some (offsetLeft (panelBox e wid), offsetTop (panelBox e wid)))"
proof -
  have reopen: "\<exists>el'. windows (openWindow e' (closeWindow t wid) wid) wid = Some el'
           \<and> el_display el' = ''flex''
           \<and> el_width el' = el_width el \<and> el_height el' = el_height el
           \<and> (case windowPositions t wid of
                 Some saved \<Rightarrow> el_left el' = Px (sg_x saved) \<and> el_top el' = Px (sg_y saved)
               | None \<Rightarrow>
                   el_left el'
                     = Px (max 40 ((innerWidth e'
                                     - (if offsetWidth (panelBox e' wid) = 0 then 600
                                        else offsetWidth (panelBox e' wid))) / 2
                                   + 30 * of_nat (length (openWindows (closeWindow t wid)))))
                 \<and> el_top el'
                     = Px (max 20 (((innerHeight e' - 48)
                                     - (if offsetHeight (panelBox e' wid) = 0 then 450
                                        else offsetHeight (panelBox e' wid))) / 2
                                   + 30 * of_nat (length (openWindows (closeWindow t wid))))))"
    if t: "windows t wid = Some el" and wide: "\<not> isMobile e'" for t
  proof -
    let ?c = "closeWindow t wid"
    have closed: "map_of (openWindows ?c) wid = None"
      using t by (simp add: closeWindow_state)
    have panel: "windows ?c wid = Some (el\<lparr>el_display := ''none'', el_maximized := False\<rparr>)"
      using t by (simp add: closeWindow_state)
    show ?thesis
      using closed wide
      by (simp add: openWindow_fields [OF panel] open_prepared_def bringToFront_windows
          position_window_def panel cascade_x_def cascade_y_def getDesktopBounds_def num_or_def
          mult.commute split: option.splits)
  qed
  have closed: "\<not> isOpen (closeWindow s wid) wid"
    using assms by (simp add: closeWindow_state isOpen_def)
  let ?u = "step s (e, PointerUp)"
  have up_panel: "windows ?u wid = Some el"
    using assms by (simp add: document_onPointerUp_def)
  have commit: "windowPositions ?u wid
              = Some \<lparr>sg_x = offsetLeft (panelBox e wid), sg_y = offsetTop (panelBox e wid),
                      sg_w = el_width el, sg_h = el_height el\<rparr>"
    if "el_hasTitlebar el \<and> ds_isDragging (winDrag s wid) \<and> wid \<noteq> []"
    using that assms by (simp add: document_onPointerUp_def drag_saved_def drag_commits_def)
  have commit_reopen: "\<exists>el'. windows (openWindow e' (closeWindow ?u wid) wid) wid = Some el'
                  \<and> el_display el' = ''flex''
                  \<and> el_left el' = Px (offsetLeft (panelBox e wid))
                  \<and> el_top el' = Px (offsetTop (panelBox e wid))
                  \<and> el_width el' = el_width el \<and> el_height el' = el_height el"
    if "el_hasTitlebar el \<and> ds_isDragging (winDrag s wid) \<and> wid \<noteq> []" and "\<not> isMobile e'"
    using reopen [OF up_panel that(2)] commit [OF that(1)] by auto
  have maximize: "map_option (\<lambda>g. (sg_x g, sg_y g))
        (windowPositions (step s (e, ControlClick wid ActMaximize)) wid)
              = Some (offsetLeft (panelBox e wid), offsetTop (panelBox e wid))"
    if "\<not> el_maximized el"
    using that assms by (simp add: control_click_def toggleMaximize_state)
  show ?thesis
    using closed reopen [OF assms] step_writes_saved_geometry [OF assms] commit commit_reopen
      maximize
    by simp
qed

theorem reopen_after_close_witness:
  "map_option (\<lambda>w. (el_hasTitlebar w, el_left w, el_top w)) (windows dragged_desktop ''A'')
     = Some (True, Px 440, Px 235)
   \<and> ds_isDragging (winDrag dragged_desktop ''A'')
   \<and> windowPositions dragged_desktop ''A'' = None
   \<and> \<not> isMobile wide_env
   \<and> map_option (\<lambda>w. (el_display w, el_left w, el_top w))
       (windows (openWindow wide_env (closeWindow dragged_desktop ''A'') ''A'') ''A'')
     = Some (''flex'', Px 340, Px 175)
   \<and> windowPositions (step dragged_desktop (viewport 1280 848 moved_out, PointerUp)) ''A''
       = Some \<lparr>sg_x = 440, sg_y = 235, sg_w = Unset, sg_h = Unset\<rparr>
   \<and> \<not> isOpen (closeWindow (step dragged_desktop (viewport 1280 848 moved_out, PointerUp)) ''A'') ''A''
   \<and> map_option (\<lambda>w. (el_display w, el_left w, el_top w))
       (windows (openWindow wide_env
                   (closeWindow
                      (openWindow wide_env
                         (closeWindow (step dragged_desktop (viewport 1280 848 moved_out, PointerUp))
                            ''A'')
                         ''B'')
                      ''B'')
                   ''A'') ''A'')
     = Some (''flex'', Px 440, Px 235)"
proof -
  have concrete: ?thesis
    by (simp add: handler_defs desktop_defs session_defs more_defs isOpen_def)
  obtain el where h: "windows dragged_desktop ''A'' = Some el"
    and d: "el_hasTitlebar el \<and> ds_isDragging (winDrag dragged_desktop ''A'') \<and> ''A'' \<noteq> []"
    using concrete by auto
  from reopen_after_close [OF h, of "viewport 1280 848 moved_out" wide_env] d
  have "windowPositions (step dragged_desktop (viewport 1280 848 moved_out, PointerUp)) ''A''
          = Some \<lparr>sg_x = offsetLeft (panelBox (viewport 1280 848 moved_out) ''A''),
                  sg_y = offsetTop (panelBox (viewport 1280 848 moved_out) ''A''),
                  sg_w = el_width el, sg_h = el_height el\<rparr>"
    by blast
  then show ?thesis using concrete by simp
qed

section \<open>Minimizing an identity that is not open\<close>

text \<open>
  Claim C3, as stated, makes \<^verbatim>\<open>minimizeWindow\<close> a no-op on an identity without a registry
  record. On the starting desktop, where nothing is open, minimizing \<open>A\<close> leaves a record
  for \<open>A\<close> in the registry.
\<close>

theorem minimize_unopened_creates_record:
  "\<not> isOpen abc_desktop ''A''
   \<and> openWindows abc_desktop = []
   \<and> openWindows (minimizeWindow abc_desktop ''A'') = [(''A'', True)]
   \<and> isOpen (minimizeWindow abc_desktop ''A'') ''A''"
  by (simp add: desktop_defs handler_defs isOpen_def)

text \<open>
  Claim C3, amended. For an identity without a registry record, \<^verbatim>\<open>minimizeWindow\<close> changes
  nothing when the panel lookup fails; when the panel exists it hides the panel and appends
  a record with \<^verbatim>\<open>minimized: true\<close> for the identity after the existing records, leaving
  saved geometry and the focus counter as they were.
\<close>

theorem minimize_unopened:
  assumes "map_of (openWindows s) wid = None"
  shows "(windows s wid = None \<longrightarrow> minimizeWindow s wid = s)
       \<and> (\<forall>el. windows s wid = Some el \<longrightarrow>
             openWindows (minimizeWindow s wid) = openWindows s @ [(wid, True)]
           \<and> windows (minimizeWindow s wid) = (windows s)(wid \<mapsto> el\<lparr>el_display := ''none''\<rparr>)
           \<and> windowPositions (minimizeWindow s wid) = windowPositions s
           \<and> highestZ (minimizeWindow s wid) = highestZ s)"
  using assms by (auto simp: minimizeWindow_state map_set_fresh)

theorem minimize_unopened_witness:
  "map_of (openWindows abc_desktop) ''A'' = None
   \<and> windows abc_desktop ''A'' = Some hidden_panel
   \<and> openWindows (minimizeWindow abc_desktop ''A'') = [(''A'', True)]
   \<and> windows abc_desktop ''Z'' = None
   \<and> minimizeWindow abc_desktop ''Z'' = abc_desktop"
proof -
  have h: "map_of (openWindows abc_desktop) ''A'' = None"
    and z: "map_of (openWindows abc_desktop) ''Z'' = None"
    by (simp_all add: desktop_defs)
  show ?thesis
    using h minimize_unopened [OF h] minimize_unopened [OF z]
    by (simp add: abc_desktop_def initial_state_def)
qed

section \<open>Maximize and restore\<close>

text \<open>
  Claim C4, as stated, has two calls of \<^verbatim>\<open>toggleMaximize\<close> restore exactly the position the
  window had. On a viewport of 1281 by 849 the first open centres panel \<open>A\<close> at left 340.5
  and top 175.5. The saved position is read from \<^verbatim>\<open>offsetLeft\<close> and \<^verbatim>\<open>offsetTop\<close>, which are
  whole numbers, here 341 and 176, and after two toggles the panel stands at 341 and 176.
\<close>

theorem toggle_twice_moves_fractional_position:
  "map_option (\<lambda>w. (el_maximized w, el_left w, el_top w)) (windows odd_desktop ''A'')
     = Some (False, Px (681 / 2), Px (351 / 2))
   \<and> map_option (\<lambda>w. (el_maximized w, el_left w, el_top w))
        (windows (toggleMaximize (viewport 1281 849 rounded_out)
                    (toggleMaximize (viewport 1281 849 rounded_out) odd_desktop ''A'') ''A'') ''A'')
     = Some (False, Px 341, Px 176)"
  by (simp add: handler_defs desktop_defs more_defs)

text \<open>
  Whatever whole number the layout reports as the left offset, the left position after two
  toggles is not the half-pixel position before them.
\<close>

lemma fractional_position_never_restored:
  assumes "offsetLeft (panelBox e ''A'') \<in> \<int>"
  shows "map_option el_left (windows (toggleMaximize e' (toggleMaximize e odd_desktop ''A'') ''A'') ''A'')
         \<noteq> map_option el_left (windows odd_desktop ''A'')"
proof -
  obtain el where el: "windows odd_desktop ''A'' = Some el" "\<not> el_maximized el"
    "el_left el = Px (681 / 2)"
    by (simp add: handler_defs desktop_defs more_defs)
  have "(681 / 2 :: rat) \<notin> \<int>"
  proof
    assume "(681 / 2 :: rat) \<in> \<int>"
    then obtain k :: int where "(681 / 2 :: rat) = of_int k" by (auto elim: Ints_cases)
    then have "(681 :: rat) = of_int (2 * k)" by simp
    then have "(681 :: int) = 2 * k" by (metis of_int_eq_iff of_int_numeral)
    then show False by presburger
  qed
  then have "offsetLeft (panelBox e ''A'') \<noteq> 681 / 2" using assms by metis
  then show ?thesis using el by (simp add: toggleMaximize_state)
qed

text \<open>
  Claim C4, amended. For a panel that exists and is not maximized, two calls of
  \<^verbatim>\<open>toggleMaximize\<close> in succession leave it not maximized, with inline left and top set to the
  left and top offsets the layout reported at the first call, with inline width and height as
  they were where they were set, and pinned to the reported offset width and height where they
  were unset; display, stacking order and active marking are untouched. Where the layout
  reports the inline position itself (a whole-pixel position), the position is restored
  exactly, and where width and height were set as well, the panel is exactly the panel before
  the first call.
\<close>

theorem toggleMaximize_twice:
  assumes "windows s wid = Some el" and "\<not> el_maximized el"
  shows "\<exists>el'. windows (toggleMaximize e' (toggleMaximize e s wid) wid) wid = Some el'
      \<and> \<not> el_maximized el'
      \<and> el_left el' = Px (offsetLeft (panelBox e wid))
      \<and> el_top el' = Px (offsetTop (panelBox e wid))
      \<and> (\<forall>w. el_width el = Px w \<longrightarrow> el_width el' = Px w)
      \<and> (el_width el = Unset \<longrightarrow> el_width el' = Px (offsetWidth (panelBox e wid)))
      \<and> (\<forall>h. el_height el = Px h \<longrightarrow> el_height el' = Px h)
      \<and> (el_height el = Unset \<longrightarrow> el_height el' = Px (offsetHeight (panelBox e wid)))
      \<and> el_display el' = el_display el \<and> el_zIndex el' = el_zIndex el
      \<and> el_active el' = el_active el
      \<and> (el_left el = Px (offsetLeft (panelBox e wid)) \<and> el_top el = Px (offsetTop (panelBox e wid))
           \<longrightarrow> el_left el' = el_left el \<and> el_top el' = el_top el)
      \<and> (el_left el = Px (offsetLeft (panelBox e wid)) \<and> el_top el = Px (offsetTop (panelBox e wid))
           \<and> el_width el \<noteq> Unset \<and> el_height el \<noteq> Unset
           \<longrightarrow> el' = el)"
proof -
  let ?s1 = "toggleMaximize e s wid"
  let ?saved = "\<lparr>sg_x = offsetLeft (panelBox e wid), sg_y = offsetTop (panelBox e wid),
                 sg_w = len_or (el_width el) (Px (offsetWidth (panelBox e wid))),
                 sg_h = len_or (el_height el) (Px (offsetHeight (panelBox e wid)))\<rparr>"
  have s1: "windows ?s1 wid = Some (el\<lparr>el_maximized := True\<rparr>)" "windowPositions ?s1 wid = Some ?saved"
    using assms by (simp_all add: toggleMaximize_state)
  let ?el' = "el\<lparr>el_maximized := False, el_left := Px (offsetLeft (panelBox e wid)),
                  el_top := Px (offsetTop (panelBox e wid)),
                  el_width := len_or (el_width el) (Px (offsetWidth (panelBox e wid))),
                  el_height := len_or (el_height el) (Px (offsetHeight (panelBox e wid)))\<rparr>"
  have s2: "windows (toggleMaximize e' ?s1 wid) wid = Some ?el'"
    using s1 by (simp add: toggleMaximize_state)
  have same: "?el' = el"
    if "el_left el = Px (offsetLeft (panelBox e wid)) \<and> el_top el = Px (offsetTop (panelBox e wid))
        \<and> el_width el \<noteq> Unset \<and> el_height el \<noteq> Unset"
  proof -
    from that obtain w h where "el_width el = Px w" "el_height el = Px h"
      by (cases "el_width el"; cases "el_height el") auto
    then show ?thesis using that assms(2) by (cases el) (simp add: len_or_def)
  qed
  show ?thesis
    using s2 assms(2) same by (auto simp: len_or_def)
qed

theorem toggleMaximize_twice_witness:
  "map_option (\<lambda>w. (el_maximized w, el_left w, el_top w, el_width w, el_height w))
     (windows sized_desktop ''A'')
     = Some (False, Px 340, Px 175, Px 700, Px 500)
   \<and> windows (toggleMaximize wide_env
                (toggleMaximize (viewport 1280 848 sized_out) sized_desktop ''A'') ''A'') ''A''
     = windows sized_desktop ''A''
   \<and> map_option (\<lambda>w. (el_maximized w, el_left w, el_top w, el_width w, el_height w))
        (windows (toggleMaximize wide_env
                    (toggleMaximize (viewport 1280 848 laid_out)
                       (openWindow wide_env abc_desktop ''B'') ''B'') ''B'') ''B'')
     = Some (False, Px 340, Px 175, Px 600, Px 450)"
proof -
  obtain el where h: "windows sized_desktop ''A'' = Some el"
    and m: "\<not> el_maximized el"
    and g: "el_left el = Px 340" "el_top el = Px 175" "el_width el = Px 700" "el_height el = Px 500"
    by (simp add: handler_defs desktop_defs session_defs)
  obtain el2 where h2: "windows (openWindow wide_env abc_desktop ''B'') ''B'' = Some el2"
    and m2: "\<not> el_maximized el2"
    and g2: "el_width el2 = Unset" "el_height el2 = Unset"
    by (simp add: handler_defs desktop_defs)
  show ?thesis
    using h m g h2 m2 g2
      toggleMaximize_twice [OF h m, of wide_env "viewport 1280 848 sized_out"]
      toggleMaximize_twice [OF h2 m2, of wide_env "viewport 1280 848 laid_out"]
    by (auto simp: viewport_def sized_out_def laid_out_def)
qed

section \<open>Stacking order and the active panel\<close>

lemma length_front_states [simp]: "length (front_states s ws) = length ws"
  by (induction ws arbitrary: s) auto

lemma bringToFront_only_active:
  "windows s w = Some el \<Longrightarrow> only_active (bringToFront s w) w"
  by (auto simp: only_active_def bringToFront_windows bringToFront_highestZ split: if_splits)

lemma front_states_above:
  "set ws \<subseteq> dom (windows s) \<Longrightarrow> s' \<in> set (front_states s ws) \<Longrightarrow> highestZ s < highestZ s'"
proof (induction ws arbitrary: s)
  case Nil
  then show ?case by simp
next
  case (Cons w ws)
  from Cons.prems(1) obtain el where el: "windows s w = Some el" by auto
  have up: "highestZ (bringToFront s w) = highestZ s + 1"
    using el by (rule bringToFront_highestZ)
  from Cons.prems(2) consider "s' = bringToFront s w" | "s' \<in> set (front_states (bringToFront s w) ws)"
    by auto
  then show ?case
  proof cases
    case 1
    then show ?thesis using up by simp
  next
    case 2
    have "set ws \<subseteq> dom (windows (bringToFront s w))" using Cons.prems(1) by simp
    from Cons.IH [OF this 2] show ?thesis using up by simp
  qed
qed

lemma front_states_increasing:
  "set ws \<subseteq> dom (windows s) \<Longrightarrow> sorted_wrt (<) (highestZ s # map highestZ (front_states s ws))"
proof (induction ws arbitrary: s)
  case Nil
  then show ?case by simp
next
  case (Cons w ws)
  have sub: "set ws \<subseteq> dom (windows (bringToFront s w))" using Cons.prems by simp
  have rest: "sorted_wrt (<) (highestZ (bringToFront s w) # map highestZ (front_states (bringToFront s w) ws))"
    by (rule Cons.IH [OF sub])
  have "\<forall>s' \<in> set (front_states s (w # ws)). highestZ s < highestZ s'"
    using front_states_above [OF Cons.prems] by blast
  then show ?case using rest by auto
qed

lemma front_states_active:
  "set ws \<subseteq> dom (windows s) \<Longrightarrow> i < length ws \<Longrightarrow> only_active (front_states s ws ! i) (ws ! i)"
proof (induction ws arbitrary: s i)
  case Nil
  then show ?case by simp
next
  case (Cons w ws)
  from Cons.prems(1) obtain el where el: "windows s w = Some el" by auto
  show ?case
  proof (cases i)
    case 0
    then show ?thesis using bringToFront_only_active [OF el] by simp
  next
    case (Suc j)
    have sub: "set ws \<subseteq> dom (windows (bringToFront s w))" using Cons.prems(1) by simp
    have "j < length ws" using Cons.prems(2) Suc by simp
    from Cons.IH [OF sub this] show ?thesis using Suc by simp
  qed
qed

lemma openWindow_highestZ_le: "highestZ s \<le> highestZ (openWindow e s w)"
proof (cases "windows s w")
  case None
  then show ?thesis by simp
next
  case (Some el)
  have "highestZ (open_prepared e s w el) = highestZ s"
    by (simp add: open_prepared_def)
  then show ?thesis
    using Some bringToFront_highestZ_le [of "open_prepared e s w el" w]
    by (simp add: openWindow_fields)
qed

lemma closeWindow_highestZ [simp]: "highestZ (closeWindow s w) = highestZ s"
  by (cases "windows s w") (simp_all add: closeWindow_state)

lemma minimizeWindow_highestZ [simp]: "highestZ (minimizeWindow s w) = highestZ s"
  by (cases "windows s w") (simp_all add: minimizeWindow_state)

lemma toggleMaximize_highestZ [simp]: "highestZ (toggleMaximize e s w) = highestZ s"
  by (cases "windows s w") (simp_all add: toggleMaximize_state split: option.splits)

lemma window_onPointerDown_highestZ_le: "highestZ s \<le> highestZ (window_onPointerDown s w)"
  by (simp add: window_onPointerDown_def bringToFront_highestZ_le split: option.splits)

lemma titlebar_onPointerDown_highestZ_le:
  "highestZ s \<le> highestZ (titlebar_onPointerDown e s w b cx cy)"
proof -
  have "highestZ s' = highestZ s \<Longrightarrow> highestZ s \<le> highestZ (bringToFront s' w)" for s'
    using bringToFront_highestZ_le [of s' w] by simp
  then show ?thesis
    by (simp add: titlebar_onPointerDown_def split: option.splits)
qed

lemma handle_onPointerDown_highestZ [simp]:
  "highestZ (handle_onPointerDown e s w cx cy) = highestZ s"
  by (simp add: handle_onPointerDown_def split: option.splits)

lemma step_highestZ_le: "highestZ s \<le> highestZ (step s ev)"
proof (cases ev)
  case (Pair e v)
  show ?thesis
  proof (cases v)
    case (TitlebarPointerDown wid onButton cx cy)
    have "highestZ s \<le> highestZ (titlebar_onPointerDown e s wid onButton cx cy)"
      by (rule titlebar_onPointerDown_highestZ_le)
    also have "\<dots> \<le> highestZ (window_onPointerDown (titlebar_onPointerDown e s wid onButton cx cy) wid)"
      by (rule window_onPointerDown_highestZ_le)
    finally show ?thesis using Pair TitlebarPointerDown by simp
  next
    case (HandlePointerDown wid cx cy)
    have "highestZ s \<le> highestZ (window_onPointerDown (handle_onPointerDown e s wid cx cy) wid)"
      using window_onPointerDown_highestZ_le [of "handle_onPointerDown e s wid cx cy" wid] by simp
    then show ?thesis using Pair HandlePointerDown by simp
  next
    case (ControlClick wid a)
    then show ?thesis using Pair by (cases a) (simp_all add: control_click_def)
  next
    case (TaskbarClick wid)
    then show ?thesis using Pair
      by (simp add: taskbar_click_def openWindow_highestZ_le bringToFront_highestZ_le
          split: option.splits)
  qed (simp_all add: Pair folder_select_def folder_onPointerDown_def folder_dblclick_def
      folder_click_def window_onPointerDown_highestZ_le document_onPointerMove_def
      document_onPointerUp_def desktop_onPointerDown_def openWindow_highestZ_le
      split: option.splits)
qed

text \<open>
  Claim C5. For every series of \<^verbatim>\<open>bringToFront\<close> calls on existing panels, the counter
  readings, starting from the one before the first call, are strictly increasing; after the
  \<open>i\<close>-th call the panel it named carries the counter's number as its stacking order and
  is the only panel marked active; and no event handler of the script ever lowers the
  counter, so a stacking order once assigned is never assigned again.
\<close>

theorem bringToFront_monotone_unique_active:
  assumes "set ws \<subseteq> dom (windows s)"
  shows "sorted_wrt (<) (highestZ s # map highestZ (front_states s ws))
       \<and> (\<forall>i<length ws. only_active (front_states s ws ! i) (ws ! i))
       \<and> (\<forall>ev. highestZ s \<le> highestZ (step s ev))"
  using assms front_states_increasing front_states_active step_highestZ_le by blast

theorem bringToFront_monotone_unique_active_witness:
  "set [''B'', ''A'', ''B''] \<subseteq> dom (windows abc_desktop)
   \<and> highestZ abc_desktop < highestZ (front_states abc_desktop [''B'', ''A'', ''B''] ! 0)
   \<and> highestZ (front_states abc_desktop [''B'', ''A'', ''B''] ! 0)
       < highestZ (front_states abc_desktop [''B'', ''A'', ''B''] ! 1)
   \<and> highestZ (front_states abc_desktop [''B'', ''A'', ''B''] ! 1)
       < highestZ (front_states abc_desktop [''B'', ''A'', ''B''] ! 2)
   \<and> map (\<lambda>k. map_option el_active (windows (front_states abc_desktop [''B'', ''A'', ''B''] ! 1) k))
        [''A'', ''B'', ''C'']
     = [Some True, Some False, Some False]"
proof -
  have h: "set [''B'', ''A'', ''B''] \<subseteq> dom (windows abc_desktop)"
    by (simp add: desktop_defs)
  have concrete: ?thesis
    by (simp add: handler_defs desktop_defs)
  show ?thesis
    using bringToFront_monotone_unique_active [OF h] by - (rule concrete)
qed

section \<open>Drag clamping\<close>

text \<open>
  Claim C6, as stated, keeps a dragged window within its bounds in every drag session. Two
  cases leave them. In a viewport 60 pixels high (and wide enough for dragging to be
  enabled) the upper bound for the top edge is \<open>60 - 48 - 40 = -28\<close>, below the lower bound
  0, and \<^verbatim>\<open>clamp\<close> lets the lower bound win: the window dragged downwards ends at top 0. And
  where the resize session of the same window is active too, the resize listener runs after
  the drag listener on the same pointer move: the drag listener clamps to \<open>-600 + 100\<close> with
  the width it reads, the resize listener then makes the window 320 wide, and the window
  ends at left \<open>-500\<close>, below \<open>-320 + 100\<close>.
\<close>

theorem drag_leaves_bounds:
  "map_option el_top
     (windows (run abc_desktop
        [(viewport 1280 60 unlaid, OpenDefault ''A''),
         (viewport 1280 60 laid_out, TitlebarPointerDown ''A'' False 400 30),
         (viewport 1280 60 laid_out, PointerMove 5000 5000)]) ''A'')
   = Some (Px 0)
   \<and> innerHeight (viewport 1280 60 laid_out) - 48 - 40 < 0
   \<and> ds_isDragging (winDrag dragging_desktop ''A'')
   \<and> rs_isResizing (winResize dragging_desktop ''A'')
   \<and> map_option (\<lambda>w. (el_left w, el_width w))
        (windows (step dragging_desktop (viewport 1280 848 laid_out, PointerMove (- 5000) 9000)) ''A'')
      = Some (Px (- 500), Px 320)"
  by (simp add: handler_defs desktop_defs session_defs)

text \<open>
  Claim C6, amended. On every pointer move, whatever the pointer position, a window whose
  drag session is active is placed with \<open>left \<ge> -width + 100\<close> and \<open>top \<ge> 0\<close>, where the
  width is the offset width the layout reports when the move is handled; the move leaves
  the window's inline width and height as they were unless a resize session of the same
  window is active on that move. An icon whose drag session is active is placed with
  \<open>left \<ge> 0\<close> and \<open>top \<ge> 0\<close>. Each upper bound (\<open>viewportWidth - 50\<close> and
  \<open>viewportHeight - 48 - 40\<close> for the window, \<open>viewportWidth - 80\<close> and
  \<open>viewportHeight - 48 - 80\<close> for the icon) holds whenever it is not below the lower bound
  of the same axis.
\<close>

theorem drag_clamped:
  "(\<forall>el. windows s wid = Some el \<and> el_hasTitlebar el \<and> ds_isDragging (winDrag s wid) \<longrightarrow>
      (\<exists>el' l t. windows (document_onPointerMove e s cx cy) wid = Some el'
         \<and> el_left el' = Px l \<and> el_top el' = Px t
         \<and> - offsetWidth (panelBox e wid) + 100 \<le> l \<and> 0 \<le> t
         \<and> (- offsetWidth (panelBox e wid) + 100 \<le> innerWidth e - 50 \<longrightarrow> l \<le> innerWidth e - 50)
         \<and> (0 \<le> innerHeight e - 48 - 40 \<longrightarrow> t \<le> innerHeight e - 48 - 40)
         \<and> (\<not> (el_hasHandle el \<and> rs_isResizing (winResize s wid)) \<longrightarrow>
              el_width el' = el_width el \<and> el_height el' = el_height el)))
   \<and> (\<forall>f. folders s fid = Some f \<and> fs_isDragging (folderDrag s fid) \<longrightarrow>
      (\<exists>f' l t. folders (document_onPointerMove e s cx cy) fid = Some f'
         \<and> fo_left f' = Px l \<and> fo_top f' = Px t
         \<and> 0 \<le> l \<and> 0 \<le> t
         \<and> (0 \<le> innerWidth e - 80 \<longrightarrow> l \<le> innerWidth e - 80)
         \<and> (0 \<le> innerHeight e - 48 - 80 \<longrightarrow> t \<le> innerHeight e - 48 - 80)))"
proof (intro conjI allI impI)
  fix el
  assume a: "windows s wid = Some el \<and> el_hasTitlebar el \<and> ds_isDragging (winDrag s wid)"
  have size: "el_width (resize_move cx cy rs (drag_move e cx cy wid ds el)) = el_width el
      \<and> el_height (resize_move cx cy rs (drag_move e cx cy wid ds el)) = el_height el"
    if "\<not> (el_hasHandle el \<and> rs_isResizing rs)" for rs ds
    using that by (auto simp: resize_move_def drag_move_def Let_def)
  show "\<exists>el' l t. windows (document_onPointerMove e s cx cy) wid = Some el'
         \<and> el_left el' = Px l \<and> el_top el' = Px t
         \<and> - offsetWidth (panelBox e wid) + 100 \<le> l \<and> 0 \<le> t
         \<and> (- offsetWidth (panelBox e wid) + 100 \<le> innerWidth e - 50 \<longrightarrow> l \<le> innerWidth e - 50)
         \<and> (0 \<le> innerHeight e - 48 - 40 \<longrightarrow> t \<le> innerHeight e - 48 - 40)
         \<and> (\<not> (el_hasHandle el \<and> rs_isResizing (winResize s wid)) \<longrightarrow>
              el_width el' = el_width el \<and> el_height el' = el_height el)"
    using a size [of "winResize s wid" "winDrag s wid"]
    by (simp add: document_onPointerMove_def drag_move_def Let_def clamp_def getDesktopBounds_def)
next
  fix f
  assume a: "folders s fid = Some f \<and> fs_isDragging (folderDrag s fid)"
  show "\<exists>f' l t. folders (document_onPointerMove e s cx cy) fid = Some f'
         \<and> fo_left f' = Px l \<and> fo_top f' = Px t
         \<and> 0 \<le> l \<and> 0 \<le> t
         \<and> (0 \<le> innerWidth e - 80 \<longrightarrow> l \<le> innerWidth e - 80)
         \<and> (0 \<le> innerHeight e - 48 - 80 \<longrightarrow> t \<le> innerHeight e - 48 - 80)"
    using a
    by (simp add: document_onPointerMove_def folder_move_element_def Let_def clamp_def
        getDesktopBounds_def)
qed

theorem drag_clamped_witness:
  "map_option el_hasTitlebar (windows moving_desktop ''A'') = Some True
   \<and> ds_isDragging (winDrag moving_desktop ''A'')
   \<and> \<not> rs_isResizing (winResize moving_desktop ''A'')
   \<and> folders moving_desktop ''A'' \<noteq> None
   \<and> fs_isDragging (folderDrag moving_desktop ''A'')
   \<and> map_option (\<lambda>w. (el_left w, el_top w, el_width w))
        (windows (document_onPointerMove (viewport 1280 848 laid_out) moving_desktop (- 5000) 9000)
           ''A'')
      = Some (Px (- 500), Px 760, Unset)
   \<and> map_option (\<lambda>w. (el_left w, el_top w))
        (windows (document_onPointerMove (viewport 1280 848 laid_out) moving_desktop 5000 (- 9000))
           ''A'')
      = Some (Px 1230, Px 0)
   \<and> map_option (\<lambda>f. (fo_left f, fo_top f))
        (folders (document_onPointerMove (viewport 1280 848 laid_out) moving_desktop (- 5000) 9000)
           ''A'')
      = Some (Px 0, Px 720)"
proof -
  have concrete: ?thesis
    by (simp add: handler_defs desktop_defs session_defs)
  obtain el where w: "windows moving_desktop ''A'' = Some el \<and> el_hasTitlebar el
      \<and> ds_isDragging (winDrag moving_desktop ''A'')"
    using concrete by auto
  obtain f where i: "folders moving_desktop ''A'' = Some f
      \<and> fs_isDragging (folderDrag moving_desktop ''A'')"
    using concrete by auto
  note clamped = drag_clamped [of moving_desktop "''A''" "viewport 1280 848 laid_out"
      "- 5000" 9000 "''A''"]
  from clamped w obtain el' l where
    "windows (document_onPointerMove (viewport 1280 848 laid_out) moving_desktop (- 5000) 9000) ''A''
       = Some el'"
    "el_left el' = Px l"
    "- offsetWidth (panelBox (viewport 1280 848 laid_out) ''A'') + 100 \<le> l"
    by blast
  moreover from clamped i obtain f' t where
    "folders (document_onPointerMove (viewport 1280 848 laid_out) moving_desktop (- 5000) 9000) ''A''
       = Some f'"
    "fo_top f' = Px t" "0 \<le> t"
    by blast
  ultimately show ?thesis using concrete by simp
qed

section \<open>Resize floor\<close>

text \<open>
  Claim C7. On every pointer move, a window whose resize session is active gets a width of
  at least 320 and a height of at least 200; a pointer position that would take the width
  to 320 or less gives exactly 320, one that would take the height to 200 or less gives
  exactly 200, and above the floor the dimension follows the pointer.
\<close>

theorem resize_floor:
  assumes "windows s wid = Some el" and "el_hasHandle el" and "rs_isResizing (winResize s wid)"
  shows "\<exists>el' w h. windows (document_onPointerMove e s cx cy) wid = Some el'
      \<and> el_width el' = Px w \<and> el_height el' = Px h
      \<and> 320 \<le> w \<and> 200 \<le> h
      \<and> (rs_startW (winResize s wid) + (cx - rs_startX (winResize s wid)) \<le> 320 \<longrightarrow> w = 320)
      \<and> (rs_startH (winResize s wid) + (cy - rs_startY (winResize s wid)) \<le> 200 \<longrightarrow> h = 200)
      \<and> (320 \<le> rs_startW (winResize s wid) + (cx - rs_startX (winResize s wid)) \<longrightarrow>
           w = rs_startW (winResize s wid) + (cx - rs_startX (winResize s wid)))
      \<and> (200 \<le> rs_startH (winResize s wid) + (cy - rs_startY (winResize s wid)) \<longrightarrow>
           h = rs_startH (winResize s wid) + (cy - rs_startY (winResize s wid)))"
  using assms by (simp add: document_onPointerMove_def resize_move_def Let_def max_def)

theorem resize_floor_witness:
  "map_option el_hasHandle (windows dragging_desktop ''A'') = Some True
   \<and> rs_isResizing (winResize dragging_desktop ''A'')
   \<and> map_option (\<lambda>w. (el_width w, el_height w))
        (windows (document_onPointerMove (viewport 1280 848 laid_out) dragging_desktop 0 9000) ''A'')
      = Some (Px 320, Px 8825)"
proof -
  obtain el where h: "windows dragging_desktop ''A'' = Some el" and t: "el_hasHandle el"
    by (simp add: handler_defs desktop_defs session_defs)
  have r: "rs_isResizing (winResize dragging_desktop ''A'')"
    by (simp add: handler_defs desktop_defs session_defs)
  show ?thesis
    using h t r resize_floor [OF h t r, of "viewport 1280 848 laid_out" 0 9000]
    by (simp add: handler_defs desktop_defs session_defs)
qed

section \<open>Cascade placement\<close>



section \<open>Missing panels\<close>

text \<open>
  Claim C9, as stated, has every operation on an identity whose panel lookup fails abort
  with no state changed and no exception. The identity is spliced into the selector text
  unescaped, and the lookup itself can fail by raising: for the identity \<^verbatim>\<open>a"b\<close> the
  selector text does not parse, \<^verbatim>\<open>querySelector\<close> raises \<^verbatim>\<open>SyntaxError\<close>, and each of the four
  operations lets it escape.
\<close>

theorem quoted_identity_raises:
  "querySelector_panel quoted_desktop quoted_id = Inl SyntaxError
   \<and> openWindow_call wide_env quoted_desktop quoted_id = (quoted_desktop, Some SyntaxError)
   \<and> closeWindow_call quoted_desktop quoted_id = (quoted_desktop, Some SyntaxError)
   \<and> minimizeWindow_call quoted_desktop quoted_id = (quoted_desktop, Some SyntaxError)
   \<and> toggleMaximize_call wide_env quoted_desktop quoted_id = (quoted_desktop, Some SyntaxError)"
proof -
  have "querySelector_panel quoted_desktop quoted_id = Inl SyntaxError"
    by (simp add: querySelector_panel_def more_defs desktop_defs)
  then show ?thesis
    by (simp add: openWindow_call_def closeWindow_call_def minimizeWindow_call_def
        toggleMaximize_call_def)
qed

text \<open>
  Claim C9, amended. When the lookup of the panel of an identity returns nothing, each of
  open, close, minimize and toggleMaximize returns with the state it was given (registry,
  saved geometry, focus counter and document untouched) and raises nothing. When the lookup
  raises, because the selector text built from the identity does not parse, each of the four
  lets that exception escape, again with the state it was given.
\<close>

theorem missing_panel_outcome:
  assumes "windows s wid = None"
  shows "(\<not> invalidSelector s (panel_selector wid) \<longrightarrow>
            openWindow_call e s wid = (s, None) \<and> closeWindow_call s wid = (s, None)
          \<and> minimizeWindow_call s wid = (s, None) \<and> toggleMaximize_call e s wid = (s, None))
       \<and> (invalidSelector s (panel_selector wid) \<longrightarrow>
            openWindow_call e s wid = (s, Some SyntaxError)
          \<and> closeWindow_call s wid = (s, Some SyntaxError)
          \<and> minimizeWindow_call s wid = (s, Some SyntaxError)
          \<and> toggleMaximize_call e s wid = (s, Some SyntaxError))"
  using assms
  by (simp add: openWindow_call_def closeWindow_call_def minimizeWindow_call_def
      toggleMaximize_call_def querySelector_panel_def)

theorem missing_panel_outcome_witness:
  "windows abc_desktop ''Z'' = None
   \<and> \<not> invalidSelector abc_desktop (panel_selector ''Z'')
   \<and> openWindow_call wide_env abc_desktop ''Z'' = (abc_desktop, None)
   \<and> closeWindow_call abc_desktop ''Z'' = (abc_desktop, None)
   \<and> minimizeWindow_call abc_desktop ''Z'' = (abc_desktop, None)
   \<and> toggleMaximize_call wide_env abc_desktop ''Z'' = (abc_desktop, None)
   \<and> windows quoted_desktop quoted_id = None
   \<and> invalidSelector quoted_desktop (panel_selector quoted_id)
   \<and> closeWindow_call quoted_desktop quoted_id = (quoted_desktop, Some SyntaxError)"
proof -
  have z: "windows abc_desktop ''Z'' = None" "\<not> invalidSelector abc_desktop (panel_selector ''Z'')"
    by (simp_all add: desktop_defs)
  have q: "windows quoted_desktop quoted_id = None"
    "invalidSelector quoted_desktop (panel_selector quoted_id)"
    by (simp_all add: more_defs desktop_defs)
  show ?thesis
    using z q missing_panel_outcome [OF z(1), of wide_env]
      missing_panel_outcome [OF q(1), of wide_env]
    by simp
qed

section \<open>A maximized window has saved geometry\<close>

lemma bringToFront_saved:
  assumes "maximized_has_saved s"
  shows "maximized_has_saved (bringToFront s w)"
  unfolding maximized_has_saved_def
proof (intro allI impI)
  fix k el'
  assume a: "windows (bringToFront s w) k = Some el'" "el_maximized el'"
  from bringToFront_maximized [OF a(1)] a(2)
  obtain el where "windows s k = Some el" "el_maximized el" by auto
  then show "windowPositions (bringToFront s w) k \<noteq> None"
    using assms by (auto simp: maximized_has_saved_def)
qed

lemma updateTaskbar_saved [simp]:
  "maximized_has_saved (updateTaskbar s) = maximized_has_saved s"
  by (simp add: maximized_has_saved_def)

lemma taskbar_update_saved [simp]:
  "maximized_has_saved (s\<lparr>taskbar := t\<rparr>) = maximized_has_saved s"
  by (simp add: maximized_has_saved_def)

lemma openWindow_saved:
  assumes "maximized_has_saved s"
  shows "maximized_has_saved (openWindow e s w)"
proof (cases "windows s w")
  case None
  then show ?thesis using assms by simp
next
  case (Some el)
  have pos: "el_maximized (position_window e s w el) = el_maximized el"
    by (simp add: position_window_def split: option.splits)
  have "maximized_has_saved (open_prepared e s w el)"
    using assms Some pos by (auto simp: open_prepared_def maximized_has_saved_def)
  then have "maximized_has_saved (bringToFront (open_prepared e s w el) w)"
    by (rule bringToFront_saved)
  then show ?thesis
    using Some by (simp add: maximized_has_saved_def openWindow_fields)
qed

lemma closeWindow_saved:
  assumes "maximized_has_saved s"
  shows "maximized_has_saved (closeWindow s w)"
  using assms
  by (cases "windows s w") (auto simp: closeWindow_state maximized_has_saved_def)

lemma minimizeWindow_saved:
  assumes "maximized_has_saved s"
  shows "maximized_has_saved (minimizeWindow s w)"
  using assms
  by (cases "windows s w") (auto simp: minimizeWindow_state maximized_has_saved_def)

lemma toggleMaximize_saved:
  assumes "maximized_has_saved s"
  shows "maximized_has_saved (toggleMaximize e s w)"
  using assms
  by (cases "windows s w")
    (auto simp: toggleMaximize_state maximized_has_saved_def split: option.splits)

lemma window_onPointerDown_saved:
  assumes "maximized_has_saved s"
  shows "maximized_has_saved (window_onPointerDown s w)"
  using assms by (simp add: window_onPointerDown_def bringToFront_saved split: option.splits)

lemma titlebar_onPointerDown_saved:
  assumes "maximized_has_saved s"
  shows "maximized_has_saved (titlebar_onPointerDown e s w b cx cy)"
proof -
  have "maximized_has_saved (s\<lparr>winDrag := d\<rparr>)" for d
    using assms by (simp add: maximized_has_saved_def)
  then show ?thesis
    using assms by (simp add: titlebar_onPointerDown_def bringToFront_saved split: option.splits)
qed

lemma handle_onPointerDown_saved:
  assumes "maximized_has_saved s"
  shows "maximized_has_saved (handle_onPointerDown e s w cx cy)"
  using assms by (auto simp: handle_onPointerDown_def maximized_has_saved_def split: option.splits)

lemma document_onPointerMove_saved:
  assumes "maximized_has_saved s"
  shows "maximized_has_saved (document_onPointerMove e s cx cy)"
  using assms by (auto simp: document_onPointerMove_def maximized_has_saved_def)

lemma drag_saved_keeps: "windowPositions s k = Some g \<Longrightarrow> \<exists>g'. drag_saved e s k = Some g'"
  by (simp add: drag_saved_def split: option.splits)

lemma document_onPointerUp_saved:
  assumes "maximized_has_saved s"
  shows "maximized_has_saved (document_onPointerUp e s)"
  using assms
  by (fastforce simp: document_onPointerUp_def maximized_has_saved_def dest: drag_saved_keeps)

lemma step_saved:
  assumes "maximized_has_saved s"
  shows "maximized_has_saved (step s ev)"
proof (cases ev)
  case (Pair e v)
  show ?thesis
  proof (cases v)
    case (FolderPointerDown fid cx cy)
    then show ?thesis using assms Pair
      by (auto simp: folder_select_def folder_onPointerDown_def maximized_has_saved_def
          split: option.splits)
  next
    case (FolderDblClick fid)
    then show ?thesis using assms Pair
      by (simp add: folder_dblclick_def openWindow_saved split: option.splits)
  next
    case (FolderClick fid)
    then show ?thesis using assms Pair
      by (simp add: folder_click_def openWindow_saved split: option.splits)
  next
    case (TitlebarPointerDown wid onButton cx cy)
    then show ?thesis using assms Pair
      by (simp add: titlebar_onPointerDown_saved window_onPointerDown_saved)
  next
    case (WindowPointerDown wid)
    then show ?thesis using assms Pair by (simp add: window_onPointerDown_saved)
  next
    case (HandlePointerDown wid cx cy)
    then show ?thesis using assms Pair
      by (simp add: handle_onPointerDown_saved window_onPointerDown_saved)
  next
    case (ControlClick wid a)
    then show ?thesis using assms Pair
      by (cases a) (simp_all add: control_click_def closeWindow_saved minimizeWindow_saved
          toggleMaximize_saved)
  next
    case (TaskbarClick wid)
    then show ?thesis using assms Pair
      by (simp add: taskbar_click_def openWindow_saved minimizeWindow_saved bringToFront_saved
          split: option.splits)
  next
    case (PointerMove cx cy)
    then show ?thesis using assms Pair by (simp add: document_onPointerMove_saved)
  next
    case PointerUp
    then show ?thesis using assms Pair by (simp add: document_onPointerUp_saved)
  next
    case DesktopPointerDown
    then show ?thesis using assms Pair
      by (simp add: desktop_onPointerDown_def maximized_has_saved_def)
  next
    case (OpenDefault fid)
    then show ?thesis using assms Pair by (simp add: openWindow_saved)
  qed
qed

lemma run_saved:
  "maximized_has_saved s \<Longrightarrow> maximized_has_saved (run s evs)"
  unfolding run_def by (induction evs arbitrary: s) (simp_all add: step_saved)

text \<open>
  Claim C10. The property that every maximized panel has a saved-geometry record is kept by
  every event handler, hence along every run of events from a state that has it (as the
  starting state does when no panel is maximized in the markup). In such a state the restore
  branch of \<^verbatim>\<open>toggleMaximize\<close> finds the record and applies its position and size, and the
  maximize branch writes a record in the same step in which it marks the panel maximized.
\<close>

theorem maximized_keeps_saved_geometry:
  assumes "maximized_has_saved s"
  shows "maximized_has_saved (step s ev)
       \<and> maximized_has_saved (run s evs)
       \<and> (\<forall>wid el. windows s wid = Some el \<and> el_maximized el \<longrightarrow>
            (\<exists>saved. windowPositions s wid = Some saved
               \<and> windows (toggleMaximize e s wid) wid
                   = Some (el\<lparr>el_maximized := False,
                             el_left := Px (sg_x saved), el_top := Px (sg_y saved),
                             el_width := sg_w saved, el_height := sg_h saved\<rparr>)))
       \<and> (\<forall>wid el. windows s wid = Some el \<and> \<not> el_maximized el \<longrightarrow>
            windowPositions (toggleMaximize e s wid) wid \<noteq> None
          \<and> map_option el_maximized (windows (toggleMaximize e s wid) wid) = Some True)"
proof -
  have restore: "\<exists>saved. windowPositions s wid = Some saved
               \<and> windows (toggleMaximize e s wid) wid
                   = Some (el\<lparr>el_maximized := False,
                             el_left := Px (sg_x saved), el_top := Px (sg_y saved),
                             el_width := sg_w saved, el_height := sg_h saved\<rparr>)"
    if "windows s wid = Some el \<and> el_maximized el" for wid el
  proof -
    from that assms obtain saved where "windowPositions s wid = Some saved"
      by (auto simp: maximized_has_saved_def)
    then show ?thesis using that by (simp add: toggleMaximize_state)
  qed
  have maximize: "windowPositions (toggleMaximize e s wid) wid \<noteq> None
          \<and> map_option el_maximized (windows (toggleMaximize e s wid) wid) = Some True"
    if "windows s wid = Some el \<and> \<not> el_maximized el" for wid el
    using that by (simp add: toggleMaximize_state)
  show ?thesis
    using step_saved [OF assms] run_saved [OF assms] restore maximize by blast
qed

theorem maximized_keeps_saved_geometry_witness:
  "maximized_has_saved abc_desktop
   \<and> maximized_has_saved
       (run abc_desktop [(wide_env, OpenDefault ''A''),
                         (viewport 1280 848 laid_out, ControlClick ''A'' ActMaximize)])
   \<and> map_option el_maximized
       (windows (run abc_desktop [(wide_env, OpenDefault ''A''),
                                  (viewport 1280 848 laid_out, ControlClick ''A'' ActMaximize)]) ''A'')
     = Some True
   \<and> map_option sg_x
       (windowPositions (run abc_desktop [(wide_env, OpenDefault ''A''),
                                  (viewport 1280 848 laid_out, ControlClick ''A'' ActMaximize)]) ''A'')
     = Some 340"
proof -
  have h: "maximized_has_saved abc_desktop"
    by (simp add: maximized_has_saved_def desktop_defs)
  have r: "map_option el_maximized
       (windows (run abc_desktop [(wide_env, OpenDefault ''A''),
                                  (viewport 1280 848 laid_out, ControlClick ''A'' ActMaximize)]) ''A'')
     = Some True
   \<and> map_option sg_x
       (windowPositions (run abc_desktop [(wide_env, OpenDefault ''A''),
                                  (viewport 1280 848 laid_out, ControlClick ''A'' ActMaximize)]) ''A'')
     = Some 340"
    by (simp add: handler_defs desktop_defs control_click_def)
  show ?thesis
    using h r maximized_keeps_saved_geometry [OF h, of "(wide_env, OpenDefault ''A'')"
        "[(wide_env, OpenDefault ''A''), (viewport 1280 848 laid_out, ControlClick ''A'' ActMaximize)]"
        wide_env]
    by blast
qed

end
